theory Spec2Isabelle
  imports Complex_Main "HOL-Library.Product_Lexorder" "HOL-Library.Multiset" "HOL-Library.Log_Nat"
begin

section \<open>Python values used by the engine\<close>

text \<open>
  Python's unbounded \<^verbatim>\<open>int\<close> is \<^typ>\<open>int\<close>; \<^verbatim>\<open>//\<close> on integers is floor division,
  which is \<open>div\<close> on \<^typ>\<open>int\<close>.

  A Python \<^verbatim>\<open>float\<close> is an IEEE 754 double. The finite doubles are the reals
  \<open>m * 2 powi q\<close> with \<open>\<bar>m\<bar> < 2 ^ 53\<close> and \<open>- 1074 \<le> q\<close>, and a finite double is
  the \<^typ>\<open>real\<close> it denotes. Every arithmetic operation on floats returns the exact result
  rounded to the nearest double, a tie going to the even significand: that rounding is
  \<open>fl\<close> below. \<open>expo x\<close> is the binary exponent of \<open>x\<close>, the \<open>e\<close> with
  \<open>2 powi e \<le> \<bar>x\<bar> < 2 powi (e + 1)\<close>; below \<open>2 powi - 1022\<close> the doubles are subnormal and
  keep the spacing \<open>2 powi - 1074\<close>. Results beyond the largest double (which Python
  turns into inf or an \<^verbatim>\<open>OverflowError\<close>), the values inf and nan as arguments of the
  engine, and the sign of zero are outside this model.
\<close>

definition expo :: "real \<Rightarrow> int" where
  "expo x = (if 1 \<le> \<bar>x\<bar> then bitlen \<lfloor>\<bar>x\<bar>\<rfloor> - 1 else - bitlen (\<lceil>1 / \<bar>x\<bar>\<rceil> - 1))"

definition round_even :: "real \<Rightarrow> int" where
  "round_even r =
     (let f = \<lfloor>r\<rfloor>
      in if r - of_int f < 1 / 2 then f
         else if 1 / 2 < r - of_int f then f + 1
         else if even f then f else f + 1)"

definition fl :: "real \<Rightarrow> real" where
  "fl x =
     (if x = 0 then 0
      else
        let q = max (expo x) (- 1022) - 52
        in of_int (round_even (x / 2 powi q)) * 2 powi q)"

text \<open>
  The operations the sources use. An \<^verbatim>\<open>int\<close> operand of a mixed operation is converted
  first (\<^verbatim>\<open>float(i)\<close>, rounded when \<open>i\<close> has more than 53 significant bits); \<^verbatim>\<open>/\<close> on two
  \<^verbatim>\<open>int\<close>s is the exact quotient rounded once. A decimal literal such as \<^verbatim>\<open>0.02\<close> is the
  double \<open>fl 0.02\<close>. Comparisons, also between an \<^verbatim>\<open>int\<close> and a float, are exact.
  \<^verbatim>\<open>int(x)\<close> of a float truncates toward zero.
\<close>

definition float_of_int :: "int \<Rightarrow> real" where
  "float_of_int i = fl (of_int i)"

definition fmul :: "real \<Rightarrow> real \<Rightarrow> real" where
  "fmul x y = fl (x * y)"

definition fdiv :: "real \<Rightarrow> real \<Rightarrow> real" where
  "fdiv x y = fl (x / y)"

definition fadd :: "real \<Rightarrow> real \<Rightarrow> real" where
  "fadd x y = fl (x + y)"

definition int_truediv :: "int \<Rightarrow> int \<Rightarrow> real" where
  "int_truediv a b = fl (of_int a / of_int b)"

definition py_int :: "real \<Rightarrow> int" where
  "py_int x = (if 0 \<le> x then \<lfloor>x\<rfloor> else \<lceil>x\<rceil>)"

text \<open>
  The wall clock. Every call of \<^verbatim>\<open>int(time.time())\<close> is a read of the clock; the
  \<open>k\<close>-th read of a run returns \<open>clk k\<close>. A function that may read the clock takes
  the number of reads made so far and returns it updated.
\<close>

type_synonym clock = "nat \<Rightarrow> int"

text \<open>
  One record of a price feed is a JSON object with optional integer fields
  (\<^verbatim>\<open>Dict[str, Optional[int]]\<close>): an association list, empty for \<^verbatim>\<open>{}\<close>.
  A feed maps item ids to such records.
\<close>

type_synonym entry = "(string \<times> int option) list"
type_synonym feed = "int \<rightharpoonup> entry"

text \<open>\<^verbatim>\<open>d.get(k)\<close>: \<^verbatim>\<open>None\<close> when the key is absent or holds null.\<close>

definition dict_get :: "entry \<Rightarrow> string \<Rightarrow> int option" where
  "dict_get d k = (case map_of d k of None \<Rightarrow> None | Some v \<Rightarrow> v)"

text \<open>\<^verbatim>\<open>int(x or 0)\<close> for an optional integer \<open>x\<close>.\<close>

definition int_or_0 :: "int option \<Rightarrow> int" where
  "int_or_0 x = (case x of None \<Rightarrow> 0 | Some v \<Rightarrow> v)"

text \<open>Truth value of an optional record: \<^verbatim>\<open>None\<close> and \<^verbatim>\<open>{}\<close> are false.\<close>

definition truthy :: "entry option \<Rightarrow> bool" where
  "truthy e = (case e of None \<Rightarrow> False | Some d \<Rightarrow> d \<noteq> [])"

text \<open>\<^verbatim>\<open>int(lh.get(k) or 0) if lh else 0\<close>.\<close>

definition get_or_0 :: "entry option \<Rightarrow> string \<Rightarrow> int" where
  "get_or_0 e k = (case e of None \<Rightarrow> 0 | Some d \<Rightarrow> if d = [] then 0 else int_or_0 (dict_get d k))"

text \<open>\<^verbatim>\<open>str(n)\<close> of an integer, in decimal.\<close>

fun str_nat :: "nat \<Rightarrow> string" where
  "str_nat n = (if n < 10 then [char_of (48 + n)] else str_nat (n div 10) @ [char_of (48 + n mod 10)])"

definition str_int :: "int \<Rightarrow> string" where
  "str_int i = (if i < 0 then CHR ''-'' # str_nat (nat (- i)) else str_nat (nat i))"

section \<open>ge\_api.py: the catalog\<close>

record WikiItem =
  wiki_item_id :: int
  name :: string
  wiki_buy_limit :: "int option"
  members :: "bool option"

type_synonym WikiItemMapping = "int \<rightharpoonup> WikiItem"

section \<open>suggest.py\<close>

definition GE_TAX_RATE :: real where
  "GE_TAX_RATE = fl 0.02"

definition GE_TAX_CAP :: int where
  "GE_TAX_CAP = 5000000"

record Suggestion =
  item_id :: int
  item_name :: string
  buy_limit :: "int option"
  buy_price_gp :: int
  sell_price_gp :: int
  unit_profit_gp :: int
  unit_roi :: real
  quantity :: int
  total_profit_gp :: int
  hourly_volume :: int
  expected_fill_hours :: real
  profit_per_hour_gp :: real
  official_ge_price :: "int option"
  buy_hourly_volume :: int
  sell_hourly_volume :: int
  buy_fill_hours :: real
  sell_fill_hours :: real
  remaining_limit :: "int option"

definition adjust_prices_for_aggressiveness :: "int \<Rightarrow> int \<Rightarrow> real \<Rightarrow> int \<times> int" where
  "adjust_prices_for_aggressiveness base_buy base_sell aggressiveness =
     (if base_buy \<le> 0 \<or> base_sell \<le> 0 \<or> base_sell \<le> base_buy then (base_buy, base_sell)
      else
        let spread = base_sell - base_buy;
            buy_adjust = py_int (fmul (fmul (float_of_int spread) 0.25) (max 0 (min 1 aggressiveness)));
            sell_adjust = py_int (fmul (fmul (float_of_int spread) 0.25) (max 0 (min 1 aggressiveness)));
            adj_buy = base_buy + buy_adjust;
            adj_sell = base_sell - sell_adjust
        in if adj_sell \<le> adj_buy then (base_buy, base_sell) else (adj_buy, adj_sell))"

definition compute_tax_per_unit :: "int \<Rightarrow> int" where
  "compute_tax_per_unit unit_sell_price = min (py_int (fmul (float_of_int unit_sell_price) GE_TAX_RATE)) GE_TAX_CAP"

text \<open>
  \<^verbatim>\<open>_choose_prices_for_item\<close>. The result is \<open>(buy_price, sell_price, low_vol, high_vol)\<close>
  or \<^verbatim>\<open>None\<close>, paired with the number of clock reads made so far. The clock is read
  only under the hybrid policy, and only when the latest record carries both timestamps.
  The three returns that the source writes out more than once are named first:
  \<open>from_1h\<close> (lines 71-73 and 93-95), \<open>from_latest\<close> (lines 75-77 and 86-90) and
  \<open>fallback\<close> (lines 91-95).
\<close>

definition from_1h :: "entry option \<Rightarrow> (int \<times> int \<times> int \<times> int) option" where
  "from_1h lh =
     (case lh of
        None \<Rightarrow> None
      | Some h \<Rightarrow>
          if h = [] then None
          else Some (int_or_0 (dict_get h ''avgLowPrice''), int_or_0 (dict_get h ''avgHighPrice''),
                     int_or_0 (dict_get h ''lowPriceVolume''), int_or_0 (dict_get h ''highPriceVolume'')))"

definition from_latest :: "entry option \<Rightarrow> entry \<Rightarrow> (int \<times> int \<times> int \<times> int) option" where
  "from_latest lh t =
     Some (int_or_0 (dict_get t ''low''), int_or_0 (dict_get t ''high''),
           get_or_0 lh ''lowPriceVolume'', get_or_0 lh ''highPriceVolume'')"

definition fallback :: "entry option \<Rightarrow> entry option \<Rightarrow> (int \<times> int \<times> int \<times> int) option" where
  "fallback fm lh =
     (case fm of
        None \<Rightarrow> from_1h lh
      | Some f \<Rightarrow>
          if f \<noteq> [] then
            Some (int_or_0 (dict_get f ''avgLowPrice''), int_or_0 (dict_get f ''avgHighPrice''),
                  get_or_0 lh ''lowPriceVolume'', get_or_0 lh ''highPriceVolume'')
          else from_1h lh)"

definition choose_prices_for_item ::
  "clock \<Rightarrow> nat \<Rightarrow> int \<Rightarrow> feed \<Rightarrow> feed \<Rightarrow> feed option \<Rightarrow> string \<Rightarrow> real
     \<Rightarrow> (int \<times> int \<times> int \<times> int) option \<times> nat" where
  "choose_prices_for_item clk n iid latest one_hour five_min price_source latest_max_age_min =
     (let lh = one_hour iid;
          lt = latest iid;
          fm = (case five_min of None \<Rightarrow> None | Some f \<Rightarrow> f iid)
      in
      if price_source = ''1h'' then (from_1h lh, n)
      else if price_source = ''latest'' then
        (case lt of
           None \<Rightarrow> (None, n)
         | Some t \<Rightarrow> if t = [] then (None, n) else (from_latest lh t, n))
      else
        (case lt of
           None \<Rightarrow> (fallback fm lh, n)
         | Some t \<Rightarrow>
             if t = [] then (fallback fm lh, n)
             else
               (case (dict_get t ''highTime'', dict_get t ''lowTime'') of
                  (Some high_time, Some low_time) \<Rightarrow>
                    let now = clk n;
                        high_age_min = fdiv (float_of_int (now - high_time)) 60;
                        low_age_min = fdiv (float_of_int (now - low_time)) 60
                    in if high_age_min \<le> latest_max_age_min \<and> low_age_min \<le> latest_max_age_min
                       then (from_latest lh t, Suc n)
                       else (fallback fm lh, Suc n)
                | _ \<Rightarrow> (fallback fm lh, n))))"

text \<open>
  \<^verbatim>\<open>_is_fresh_enough\<close>. The clock is read only when the filter is on and the record
  carries at least one timestamp.
\<close>

definition is_fresh_enough :: "clock \<Rightarrow> nat \<Rightarrow> entry option \<Rightarrow> real \<Rightarrow> string \<Rightarrow> bool \<times> nat" where
  "is_fresh_enough clk n lt_entry fresh_minutes policy =
     (if fresh_minutes \<le> 0 then (True, n)
      else
        (case lt_entry of
           None \<Rightarrow> (False, n)
         | Some t \<Rightarrow>
             if t = [] then (False, n)
             else
               let high_time = dict_get t ''highTime'';
                   low_time = dict_get t ''lowTime''
               in if high_time = None \<and> low_time = None then (False, n)
                  else
                    let now = clk n;
                        high_ok = (case high_time of None \<Rightarrow> False
                                   | Some h \<Rightarrow> of_int (now - h) \<le> fmul fresh_minutes (float_of_int 60));
                        low_ok = (case low_time of None \<Rightarrow> False
                                  | Some l \<Rightarrow> of_int (now - l) \<le> fmul fresh_minutes (float_of_int 60))
                    in ((if policy = ''any'' then high_ok \<or> low_ok else high_ok \<and> low_ok), Suc n)))"

text \<open>The keyword arguments of \<^verbatim>\<open>build_suggestions\<close>.\<close>

record args =
  budget_gp :: int
  mapping :: WikiItemMapping
  latest :: feed
  one_hour :: feed
  min_unit_roi :: real
  min_unit_profit_gp :: int
  aggressiveness :: real
  liquidity_fraction :: real
  min_hourly_volume :: int
  max_fill_hours :: real
  price_source :: string
  latest_max_age_min :: real
  fresh_minutes :: real
  fresh_policy :: string
  remaining_limits :: "(int \<rightharpoonup> int) option"
  top_n :: int
  include_item_ids :: "int list option"

text \<open>
  The body of the loop over the universe, in the order of the source. A result
  \<^verbatim>\<open>None\<close> is a \<^verbatim>\<open>continue\<close>; \<open>Some s\<close> is \<^verbatim>\<open>results.append(s)\<close>.

  Lines 177-178 and 190-192: the item's purchase cap and its clamped remaining allowance.
  A \<^verbatim>\<open>WikiItem\<close> object is always true, so \<^verbatim>\<open>if item\<close> tests for \<^verbatim>\<open>None\<close>;
  an empty \<^verbatim>\<open>remaining_limits\<close> dict is false and holds no key.
\<close>

definition item_buy_limit :: "args \<Rightarrow> int \<Rightarrow> int option" where
  "item_buy_limit a iid = (case mapping a iid of None \<Rightarrow> None | Some item \<Rightarrow> wiki_buy_limit item)"

definition item_rem :: "args \<Rightarrow> int \<Rightarrow> int option" where
  "item_rem a iid =
     (case remaining_limits a of
        None \<Rightarrow> None
      | Some m \<Rightarrow> (case m iid of None \<Rightarrow> None | Some r \<Rightarrow> Some (max 0 r)))"

text \<open>Lines 172-207: the quantity, or \<^verbatim>\<open>None\<close> where the source continues.\<close>

definition derive_quantity :: "args \<Rightarrow> int \<Rightarrow> int \<Rightarrow> int \<Rightarrow> int \<Rightarrow> int option" where
  "derive_quantity a iid buy_price low_vol high_vol =
     (let buy_capacity_per_hour = max 1 (py_int (fmul (float_of_int low_vol) (max 0 (min 1 (liquidity_fraction a)))));
          sell_capacity_per_hour = max 1 (py_int (fmul (float_of_int high_vol) (max 0 (min 1 (liquidity_fraction a)))));
          max_by_budget = budget_gp a div buy_price
      in
      if max_by_budget \<le> 0 then None
      else
        let quantity = max_by_budget;
            quantity = (case item_buy_limit a iid of None \<Rightarrow> quantity | Some l \<Rightarrow> min quantity l);
            quantity = (case item_rem a iid of None \<Rightarrow> quantity | Some r \<Rightarrow> min quantity r);
            quantity = min quantity (min buy_capacity_per_hour sell_capacity_per_hour)
        in
        if quantity \<le> 0 then None
        else
          let max_qty_by_buy_time = py_int (fmul (float_of_int low_vol) (max 0 (max_fill_hours a)));
              max_qty_by_sell_time = py_int (fmul (float_of_int high_vol) (max 0 (max_fill_hours a)))
          in
          if max_qty_by_buy_time \<le> 0 \<or> max_qty_by_sell_time \<le> 0 then None
          else
            let quantity = min quantity (min max_qty_by_buy_time max_qty_by_sell_time)
            in if quantity \<le> 0 then None else Some quantity)"

text \<open>Lines 209-245: profit, the two floors, fill time, and the record.\<close>

definition make_suggestion :: "args \<Rightarrow> int \<Rightarrow> int \<Rightarrow> int \<Rightarrow> int \<Rightarrow> int \<Rightarrow> int \<Rightarrow> Suggestion option" where
  "make_suggestion a iid buy_price sell_price low_vol high_vol qty =
     (let unit_tax = compute_tax_per_unit sell_price;
          total_sale_value = sell_price * qty;
          total_tax = unit_tax * qty;
          total_buy_cost = buy_price * qty;
          total_profit = (total_sale_value - total_tax) - total_buy_cost;
          unit_profit = total_profit div max 1 qty;
          roi = int_truediv unit_profit buy_price
      in
      if unit_profit < min_unit_profit_gp a \<or> roi < min_unit_roi a then None
      else
        let buy_fill = int_truediv qty (max 1 low_vol);
            sell_fill = int_truediv qty (max 1 high_vol);
            expected = fadd buy_fill sell_fill;
            profit_per_hour = (if expected > 0 then fdiv (float_of_int total_profit) expected
                               else float_of_int total_profit)
        in Some \<lparr>
             item_id = iid,
             item_name = (case mapping a iid of None \<Rightarrow> str_int iid | Some item \<Rightarrow> name item),
             buy_limit = item_buy_limit a iid,
             buy_price_gp = buy_price,
             sell_price_gp = sell_price,
             unit_profit_gp = unit_profit,
             unit_roi = roi,
             quantity = qty,
             total_profit_gp = total_profit,
             hourly_volume = min low_vol high_vol,
             expected_fill_hours = expected,
             profit_per_hour_gp = profit_per_hour,
             official_ge_price = None,
             buy_hourly_volume = low_vol,
             sell_hourly_volume = high_vol,
             buy_fill_hours = buy_fill,
             sell_fill_hours = sell_fill,
             remaining_limit = item_rem a iid
           \<rparr>)"

text \<open>Lines 159-245: from the chosen quadruple to the suggestion.\<close>

definition evaluate_item :: "args \<Rightarrow> int \<Rightarrow> int \<times> int \<times> int \<times> int \<Rightarrow> Suggestion option" where
  "evaluate_item a iid chosen =
     (case chosen of (base_buy, base_sell, low_vol, high_vol) \<Rightarrow>
        if base_buy = 0 \<or> base_sell = 0 \<or> base_buy \<le> 0 \<or> base_sell \<le> 0 then None
        else if base_sell \<le> base_buy then None
        else if min low_vol high_vol < max 0 (min_hourly_volume a) then None
        else
          (case adjust_prices_for_aggressiveness base_buy base_sell (aggressiveness a) of
             (buy_price, sell_price) \<Rightarrow>
               (case derive_quantity a iid buy_price low_vol high_vol of
                  None \<Rightarrow> None
                | Some qty \<Rightarrow> make_suggestion a iid buy_price sell_price low_vol high_vol qty)))"

text \<open>
  Lines 144-246 for one item: the freshness filter, the price selection, the rest.
  \<open>five_min\<close> is the value of the module global \<^verbatim>\<open>__five_min_data__\<close>, which nothing in
  the repository sets.
\<close>

definition loop_body :: "clock \<Rightarrow> nat \<Rightarrow> feed option \<Rightarrow> args \<Rightarrow> int \<Rightarrow> Suggestion option \<times> nat" where
  "loop_body clk n five_min a iid =
     (case is_fresh_enough clk n (latest a iid) (fresh_minutes a) (fresh_policy a) of
        (fresh, n1) \<Rightarrow>
          if \<not> fresh then (None, n1)
          else
            (case choose_prices_for_item clk n1 iid (latest a) (one_hour a) five_min
                    (price_source a) (latest_max_age_min a) of
               (None, n2) \<Rightarrow> (None, n2)
             | (Some chosen, n2) \<Rightarrow> (evaluate_item a iid chosen, n2)))"

fun run_loop :: "clock \<Rightarrow> nat \<Rightarrow> feed option \<Rightarrow> args \<Rightarrow> int list \<Rightarrow> Suggestion list \<Rightarrow> Suggestion list \<times> nat" where
  "run_loop clk n five_min a [] results = (results, n)"
| "run_loop clk n five_min a (iid # rest) results =
     (case loop_body clk n five_min a iid of
        (None, n') \<Rightarrow> run_loop clk n' five_min a rest results
      | (Some s, n') \<Rightarrow> run_loop clk n' five_min a rest (results @ [s]))"

text \<open>
  \<^verbatim>\<open>results.sort(key=..., reverse=True)\<close>: a stable sort, descending in the key triple
  compared lexicographically; elements with equal keys keep their order.
\<close>

definition rank_key :: "Suggestion \<Rightarrow> real \<times> int \<times> real" where
  "rank_key s = (profit_per_hour_gp s, total_profit_gp s, unit_roi s)"

fun insort_desc :: "Suggestion \<Rightarrow> Suggestion list \<Rightarrow> Suggestion list" where
  "insort_desc x [] = [x]"
| "insort_desc x (y # ys) = (if rank_key y \<le> rank_key x then x # y # ys else y # insort_desc x ys)"

definition sort_reverse :: "Suggestion list \<Rightarrow> Suggestion list" where
  "sort_reverse xs = foldr insort_desc xs []"

text \<open>
  \<^verbatim>\<open>build_suggestions\<close>. \<open>order\<close> is the order in which Python iterates the set
  \<^verbatim>\<open>one_hour.keys() | latest.keys()\<close>: a list without duplicates of the keys of the two
  feeds, in an order the language leaves to the implementation.
\<close>

definition universe_of :: "args \<Rightarrow> int list \<Rightarrow> int list" where
  "universe_of a order =
     (case include_item_ids a of
        None \<Rightarrow> order
      | Some ids \<Rightarrow> filter (\<lambda>iid. iid \<in> set ids) order)"

definition build_suggestions :: "clock \<Rightarrow> nat \<Rightarrow> feed option \<Rightarrow> int list \<Rightarrow> args \<Rightarrow> Suggestion list \<times> nat" where
  "build_suggestions clk n five_min order a =
     (case run_loop clk n five_min a (universe_of a order) [] of
        (results, n') \<Rightarrow> (take (nat (max 1 (top_n a))) (sort_reverse results), n'))"

section \<open>The end-to-end scenario\<close>

text \<open>
  The inputs of the end-to-end scenario: one catalog item with cap 50, one latest record
  with both timestamps equal to \<open>now\<close>, one windowed record that carries the two volumes.
  The arguments the scenario leaves open are parameters.
\<close>

definition e2e_latest :: "int \<Rightarrow> feed" where
  "e2e_latest now = [1 \<mapsto> [(''high'', Some 120), (''highTime'', Some now), (''low'', Some 100), (''lowTime'', Some now)]]"

definition e2e_one_hour :: feed where
  "e2e_one_hour = [1 \<mapsto> [(''lowPriceVolume'', Some 1000), (''highPriceVolume'', Some 1000)]]"

definition e2e_args :: "int \<Rightarrow> string \<Rightarrow> real \<Rightarrow> real \<Rightarrow> string \<Rightarrow> int \<Rightarrow> args" where
  "e2e_args now source max_age fresh policy n =
     \<lparr> budget_gp = 10000,
       mapping = [1 \<mapsto> \<lparr> wiki_item_id = 1, name = ''Item'', wiki_buy_limit = Some 50, members = None \<rparr>],
       latest = e2e_latest now,
       one_hour = e2e_one_hour,
       min_unit_roi = 0,
       min_unit_profit_gp = 0,
       aggressiveness = 0,
       liquidity_fraction = 1,
       min_hourly_volume = 0,
       max_fill_hours = 10,
       price_source = source,
       latest_max_age_min = max_age,
       fresh_minutes = fresh,
       fresh_policy = policy,
       remaining_limits = None,
       top_n = n,
       include_item_ids = None \<rparr>"

definition e2e_suggestion :: Suggestion where
  "e2e_suggestion =
     \<lparr> item_id = 1, item_name = ''Item'', buy_limit = Some 50, buy_price_gp = 100, sell_price_gp = 120,
       unit_profit_gp = 18, unit_roi = fl 0.18, quantity = 50, total_profit_gp = 900, hourly_volume = 1000,
       expected_fill_hours = fl 0.1, profit_per_hour_gp = 9000, official_ge_price = None,
       buy_hourly_volume = 1000, sell_hourly_volume = 1000, buy_fill_hours = fl 0.05, sell_fill_hours = fl 0.05,
       remaining_limit = None \<rparr>"

text \<open>
  A windowed feed that also carries average prices for item 1, and a five-minute feed with
  other averages for it.
\<close>

definition e2e_windowed :: feed where
  "e2e_windowed = [1 \<mapsto> [(''avgHighPrice'', Some 120), (''avgLowPrice'', Some 100),
                         (''highPriceVolume'', Some 1000), (''lowPriceVolume'', Some 1000)]]"

definition e2e_five_min :: feed where
  "e2e_five_min = [1 \<mapsto> [(''avgHighPrice'', Some 118), (''avgLowPrice'', Some 103)]]"

section \<open>The caps of the quantity derivation\<close>

text \<open>
  The values whose minimum the quantity derivation takes, as the source computes them:
  the budget quotient, the purchase cap when the catalog has one, the remaining allowance
  clamped at 0 when the map holds one, the two liquidity capacities (each raised to at
  least 1), and the two fill-time caps.
\<close>

definition quantity_caps :: "args \<Rightarrow> int \<Rightarrow> int \<Rightarrow> int \<Rightarrow> int \<Rightarrow> int list" where
  "quantity_caps a iid buy_price low_vol high_vol =
     [budget_gp a div buy_price]
     @ (case item_buy_limit a iid of None \<Rightarrow> [] | Some l \<Rightarrow> [l])
     @ (case item_rem a iid of None \<Rightarrow> [] | Some r \<Rightarrow> [r])
     @ [max 1 (py_int (fmul (float_of_int low_vol) (max 0 (min 1 (liquidity_fraction a))))),
        max 1 (py_int (fmul (float_of_int high_vol) (max 0 (min 1 (liquidity_fraction a))))),
        py_int (fmul (float_of_int low_vol) (max 0 (max_fill_hours a))),
        py_int (fmul (float_of_int high_vol) (max 0 (max_fill_hours a)))]"

text \<open>The end-to-end scenario with another liquidity fraction.\<close>

definition e2e_args_liquidity :: "real \<Rightarrow> args" where
  "e2e_args_liquidity fraction =
     (e2e_args 1700000000 ''latest'' 20 10 ''both'' 10) \<lparr> liquidity_fraction := fraction \<rparr>"

definition e2e_args_no_liquidity :: args where
  "e2e_args_no_liquidity = e2e_args_liquidity 0"

text \<open>
  The scenario with the latest feed empty and the prices in the windowed record, under the
  "1h" price source; the freshness threshold is the parameter.
\<close>

definition windowed_only_args :: "real \<Rightarrow> args" where
  "windowed_only_args fresh =
     (e2e_args 1700000000 ''1h'' 20 fresh ''both'' 10)
       \<lparr> latest := Map.empty,
         one_hour := [1 \<mapsto> [(''avgHighPrice'', Some 120), (''avgLowPrice'', Some 100),
                            (''highPriceVolume'', Some 1000), (''lowPriceVolume'', Some 1000)]] \<rparr>"

text \<open>
  Two items, 1 and 9, with the records of the end-to-end scenario each: equal prices,
  volumes, caps and timestamps. The freshness threshold is the parameter.
\<close>

definition tie_args :: "real \<Rightarrow> args" where
  "tie_args fresh =
     (e2e_args 1700000000 ''latest'' 20 fresh ''both'' 10)
       \<lparr> mapping := (\<lambda>i. if i = 1 \<or> i = 9
                         then Some \<lparr> wiki_item_id = i, name = ''Item'', wiki_buy_limit = Some 50, members = None \<rparr>
                         else None),
         latest := (\<lambda>i. if i = 1 \<or> i = 9 then e2e_latest 1700000000 1 else None),
         one_hour := (\<lambda>i. if i = 1 \<or> i = 9 then e2e_one_hour 1 else None) \<rparr>"

text \<open>A clock that starts 60 seconds after those timestamps and advances one second per read.\<close>

definition ticking :: clock where
  "ticking k = 1700000060 + int k"

text \<open>The same two items, with item 9 selling at 130 instead of 120.\<close>

definition two_item_args :: args where
  "two_item_args =
     (tie_args 10)
       \<lparr> latest := (\<lambda>i. if i = 9
                        then Some [(''high'', Some 130), (''highTime'', Some 1700000000),
                                   (''low'', Some 100), (''lowTime'', Some 1700000000)]
                        else latest (tie_args 10) i) \<rparr>"

section \<open>limits.py: the local event log\<close>

definition FOUR_HOURS_SEC :: int where
  "FOUR_HOURS_SEC = 4 * 60 * 60"

record LimitEvent =
  ts :: int
  event_item_id :: int
  event_type :: string
  qty :: int

record LimitState =
  events :: "LimitEvent list"
  version :: int

datatype py_error = ValueError | OSError | AttributeError | OverflowError

text \<open>
  The files: a path holds the state that \<^verbatim>\<open>save_state\<close> wrote there as JSON. Reading the
  JSON back and converting each field with \<^verbatim>\<open>int\<close> and \<^verbatim>\<open>str\<close>, as \<^verbatim>\<open>load_state\<close> does,
  returns the integers and strings that were written, so the store holds the state itself.
\<close>

type_synonym store = "string \<rightharpoonup> LimitState"

text \<open>
  \<^verbatim>\<open>load_state\<close>: an empty path or a missing file is the empty state, and the clock is
  not read; otherwise events older than eight hours are pruned.
\<close>

definition load_state :: "clock \<Rightarrow> nat \<Rightarrow> store \<Rightarrow> string \<Rightarrow> LimitState \<times> nat" where
  "load_state clk n fs path =
     (if path = [] then (\<lparr> events = [], version = 1 \<rparr>, n)
      else
        (case fs path of
           None \<Rightarrow> (\<lparr> events = [], version = 1 \<rparr>, n)
         | Some data \<Rightarrow>
             let now = clk n;
                 fresh_cutoff = now - (2 * FOUR_HOURS_SEC)
             in (\<lparr> events = filter (\<lambda>e. ts e \<ge> fresh_cutoff) (events data), version = version data \<rparr>,
                 Suc n)))"

text \<open>\<^verbatim>\<open>save_state\<close>: \<^verbatim>\<open>open\<close> of the empty path raises; other failures of the file system are not modelled.\<close>

definition save_state :: "store \<Rightarrow> string \<Rightarrow> LimitState \<Rightarrow> py_error + store" where
  "save_state fs path state = (if path = [] then Inl OSError else Inr (fs(path \<mapsto> state)))"

text \<open>\<^verbatim>\<open>append_event\<close>: the timestamp is the argument when given, else a read of the clock.\<close>

definition append_event ::
  "clock \<Rightarrow> nat \<Rightarrow> store \<Rightarrow> string \<Rightarrow> int \<Rightarrow> int \<Rightarrow> string \<Rightarrow> int option \<Rightarrow> py_error + (store \<times> nat)" where
  "append_event clk n fs path item qty_arg type_arg ts_arg =
     (if type_arg \<noteq> ''buy'' \<and> type_arg \<noteq> ''sell'' then Inl ValueError
      else
        (case load_state clk n fs path of
           (state, n1) \<Rightarrow>
             (case (case ts_arg of Some t \<Rightarrow> (t, n1) | None \<Rightarrow> (clk n1, Suc n1)) of
                (t, n2) \<Rightarrow>
                  (case save_state fs path
                          (state \<lparr> events := events state
                                     @ [\<lparr> ts = t, event_item_id = item, event_type = type_arg, qty = qty_arg \<rparr>] \<rparr>) of
                     Inl err \<Rightarrow> Inl err
                   | Inr fs' \<Rightarrow> Inr (fs', n2)))))"

text \<open>\<^verbatim>\<open>used.get(item_id, 0)\<close>.\<close>

definition get0 :: "(int \<rightharpoonup> int) \<Rightarrow> int \<Rightarrow> int" where
  "get0 used i = (case used i of None \<Rightarrow> 0 | Some u \<Rightarrow> u)"

text \<open>Lines 90-95: the buys inside the window, summed per item.\<close>

fun sum_buys :: "int \<Rightarrow> LimitEvent list \<Rightarrow> (int \<rightharpoonup> int) \<Rightarrow> (int \<rightharpoonup> int)" where
  "sum_buys cutoff [] used = used"
| "sum_buys cutoff (e # es) used =
     (if event_type e \<noteq> ''buy'' then sum_buys cutoff es used
      else if ts e < cutoff then sum_buys cutoff es used
      else sum_buys cutoff es (used(event_item_id e \<mapsto> get0 used (event_item_id e) + max 0 (qty e))))"

text \<open>Lines 96-101 (and 120-125 of the adapter): one entry per item with a known limit.\<close>

definition remaining_of :: "(int \<rightharpoonup> int option) \<Rightarrow> (int \<rightharpoonup> int) \<Rightarrow> (int \<rightharpoonup> int)" where
  "remaining_of buy_limits used =
     (\<lambda>i. case buy_limits i of
             None \<Rightarrow> None
           | Some None \<Rightarrow> None
           | Some (Some limit) \<Rightarrow> Some (max 0 (limit - get0 used i)))"

definition compute_remaining_limits ::
  "clock \<Rightarrow> nat \<Rightarrow> store \<Rightarrow> string \<Rightarrow> (int \<rightharpoonup> int option) \<Rightarrow> (int \<rightharpoonup> int) \<times> nat" where
  "compute_remaining_limits clk n fs path buy_limits =
     (case load_state clk n fs path of
        (state, n1) \<Rightarrow>
          let now = clk n1;
              cutoff = now - FOUR_HOURS_SEC;
              used = sum_buys cutoff (events state) Map.empty
          in (remaining_of buy_limits used, Suc n1))"

section \<open>flipper2\_adapter.py: the third-party export\<close>

text \<open>
  A parsed JSON value, as \<^verbatim>\<open>json.load\<close> returns it. \<^verbatim>\<open>None\<close> is \<open>JNull\<close>; an object is an
  association list, looked up by key. A number written with a fraction or an exponent is a
  float: a double, or inf, -inf or nan, which the parser returns for the literals
  \<^verbatim>\<open>Infinity\<close>, \<^verbatim>\<open>-Infinity\<close> and \<^verbatim>\<open>NaN\<close> and for a literal beyond the range of doubles.
\<close>

datatype py_float = Finite real | PosInf | NegInf | NaN

datatype json =
  JNull
  | JBool bool
  | JInt int
  | JFloat py_float
  | JStr string
  | JArr "json list"
  | JObj "(string \<times> json) list"

text \<open>\<^verbatim>\<open>e.get(k)\<close> on a dict.\<close>

definition json_get :: "(string \<times> json) list \<Rightarrow> string \<Rightarrow> json" where
  "json_get e k = (case map_of e k of None \<Rightarrow> JNull | Some v \<Rightarrow> v)"

text \<open>Python truth value, and \<^verbatim>\<open>a or b\<close>. Of the floats only zero is false.\<close>

fun json_truthy :: "json \<Rightarrow> bool" where
  "json_truthy JNull = False"
| "json_truthy (JBool b) = b"
| "json_truthy (JInt i) = (i \<noteq> 0)"
| "json_truthy (JFloat f) = (f \<noteq> Finite 0)"
| "json_truthy (JStr s) = (s \<noteq> [])"
| "json_truthy (JArr xs) = (xs \<noteq> [])"
| "json_truthy (JObj kv) = (kv \<noteq> [])"

definition py_or :: "json \<Rightarrow> json \<Rightarrow> json" where
  "py_or a b = (if json_truthy a then a else b)"

text \<open>
  \<^verbatim>\<open>int(s)\<close> of a string: surrounding whitespace is dropped, then an optional sign, then
  decimal digits, with single underscores allowed between digits. \<^verbatim>\<open>None\<close> stands for
  the \<^verbatim>\<open>ValueError\<close>. Strings are byte strings here, so only ASCII digits and spaces occur;
  the bound that recent interpreters put on the number of digits (4300 unless configured
  otherwise) is not modelled.
\<close>

definition is_space :: "char \<Rightarrow> bool" where
  "is_space c = (let k = (of_char c :: nat) in (9 \<le> k \<and> k \<le> 13) \<or> (28 \<le> k \<and> k \<le> 32))"

definition is_digit :: "char \<Rightarrow> bool" where
  "is_digit c = (let k = (of_char c :: nat) in 48 \<le> k \<and> k \<le> 57)"

fun parse_digits :: "nat \<Rightarrow> bool \<Rightarrow> string \<Rightarrow> nat option" where
  "parse_digits acc after_digit [] = (if after_digit then Some acc else None)"
| "parse_digits acc after_digit (c # cs) =
     (if is_digit c then parse_digits (10 * acc + (of_char c - 48)) True cs
      else if c = CHR ''_'' \<and> after_digit then parse_digits acc False cs
      else None)"

definition parse_int :: "string \<Rightarrow> int option" where
  "parse_int s =
     (let body = rev (dropWhile is_space (rev (dropWhile is_space s)))
      in case body of
           [] \<Rightarrow> None
         | c # cs \<Rightarrow>
             if c = CHR ''-'' then map_option (\<lambda>v. - int v) (parse_digits 0 False cs)
             else if c = CHR ''+'' then map_option int (parse_digits 0 False cs)
             else map_option int (parse_digits 0 False body))"

text \<open>
  \<^verbatim>\<open>int(x)\<close> of a JSON value; \<^verbatim>\<open>None\<close> stands for the exception raised: a \<^verbatim>\<open>TypeError\<close> for
  \<^verbatim>\<open>None\<close>, a list or a dict, a \<^verbatim>\<open>ValueError\<close> for a string that is no integer and for nan,
  an \<^verbatim>\<open>OverflowError\<close> for inf and -inf.
\<close>

fun to_int :: "json \<Rightarrow> int option" where
  "to_int JNull = None"
| "to_int (JBool b) = Some (if b then 1 else 0)"
| "to_int (JInt i) = Some i"
| "to_int (JFloat (Finite x)) = Some (py_int x)"
| "to_int (JFloat f) = None"
| "to_int (JStr s) = parse_int s"
| "to_int (JArr xs) = None"
| "to_int (JObj kv) = None"

text \<open>
  \<^verbatim>\<open>_normalize_ts\<close>. For a number (lines 45-49; a \<^verbatim>\<open>bool\<close> is an \<^verbatim>\<open>int\<close>) the conversion
  stands outside any \<^verbatim>\<open>try\<close>, so the exception that \<^verbatim>\<open>int\<close> raises for nan, inf and -inf
  leaves the function. For any other value (lines 50-56) a failed conversion returns 0.
\<close>

fun normalize_ts :: "json \<Rightarrow> py_error + int" where
  "normalize_ts JNull = Inr 0"
| "normalize_ts (JFloat NaN) = Inl ValueError"
| "normalize_ts (JFloat PosInf) = Inl OverflowError"
| "normalize_ts (JFloat NegInf) = Inl OverflowError"
| "normalize_ts j =
     (case to_int j of
        None \<Rightarrow> Inr 0
      | Some t \<Rightarrow> Inr (if t > 10 ^ 12 then t div 1000 else t))"

text \<open>The three \<^verbatim>\<open>or\<close>-chains of \<^verbatim>\<open>add_entry\<close> (lines 78, 85-91 and 94).\<close>

definition event_item :: "(string \<times> json) list \<Rightarrow> json" where
  "event_item e = py_or (json_get e ''itemId'') (py_or (json_get e ''id'') (json_get e ''item''))"

definition event_ts :: "(string \<times> json) list \<Rightarrow> json" where
  "event_ts e =
     py_or (json_get e ''ts'')
       (py_or (json_get e ''time'')
         (py_or (json_get e ''timestamp'')
           (py_or (json_get e ''createdAt'') (json_get e ''createdTime''))))"

definition event_qty :: "(string \<times> json) list \<Rightarrow> json" where
  "event_qty e =
     py_or (json_get e ''quantity'')
       (py_or (json_get e ''qty'')
         (py_or (json_get e ''amount'') (py_or (json_get e ''tQIT'') (JInt 0))))"

text \<open>
  \<^verbatim>\<open>add_entry\<close>, with the dict \<^verbatim>\<open>used\<close> passed and returned. The two conversions of the
  item and of the quantity are inside a \<^verbatim>\<open>try\<close>; the exception of \<^verbatim>\<open>_normalize_ts\<close> is not
  caught.
\<close>

definition add_entry :: "int \<Rightarrow> (int \<rightharpoonup> int) \<Rightarrow> (string \<times> json) list \<Rightarrow> py_error + (int \<rightharpoonup> int)" where
  "add_entry cutoff used e =
     (let item = event_item e
      in if item = JNull then Inr used
         else
           (case to_int item of
              None \<Rightarrow> Inr used
            | Some iid \<Rightarrow>
                (case normalize_ts (event_ts e) of
                   Inl err \<Rightarrow> Inl err
                 | Inr t \<Rightarrow>
                     if t < cutoff then Inr used
                     else
                       let q = (case to_int (event_qty e) of None \<Rightarrow> 0 | Some v \<Rightarrow> v)
                       in if q > 0 then Inr (used(iid \<mapsto> get0 used iid + q)) else Inr used)))"

text \<open>Lines 103-105: the loop over the buys file.\<close>

fun buys_loop :: "int \<Rightarrow> json list \<Rightarrow> (int \<rightharpoonup> int) \<Rightarrow> py_error + (int \<rightharpoonup> int)" where
  "buys_loop cutoff [] used = Inr used"
| "buys_loop cutoff (e # es) used =
     (case e of
        JObj kv \<Rightarrow>
          (case add_entry cutoff used kv of
             Inl err \<Rightarrow> Inl err
           | Inr used' \<Rightarrow> buys_loop cutoff es used')
      | _ \<Rightarrow> buys_loop cutoff es used)"

text \<open>\<^verbatim>\<open>str.lower\<close> on ASCII letters.\<close>

definition lower_char :: "char \<Rightarrow> char" where
  "lower_char c = (let k = (of_char c :: nat) in if 65 \<le> k \<and> k \<le> 90 then char_of (k + 32) else c)"

text \<open>
  Lines 108-118: the loop over the flips file. \<open>nested_buy\<close> is line 112: the value under
  \<^verbatim>\<open>buy\<close> when it is a non-empty dict. A truthy \<^verbatim>\<open>side\<close> or \<^verbatim>\<open>type\<close> that is not a string
  has no \<^verbatim>\<open>lower\<close>: the \<^verbatim>\<open>AttributeError\<close> is not caught and ends the call.
\<close>

definition nested_buy :: "(string \<times> json) list \<Rightarrow> (string \<times> json) list option" where
  "nested_buy kv = (case json_get kv ''buy'' of JObj b \<Rightarrow> if b \<noteq> [] then Some b else None | _ \<Rightarrow> None)"

fun flips_loop :: "int \<Rightarrow> json list \<Rightarrow> (int \<rightharpoonup> int) \<Rightarrow> py_error + (int \<rightharpoonup> int)" where
  "flips_loop cutoff [] used = Inr used"
| "flips_loop cutoff (e # es) used =
     (case e of
        JObj kv \<Rightarrow>
          (case nested_buy kv of
             Some b \<Rightarrow>
               (case add_entry cutoff used b of
                  Inl err \<Rightarrow> Inl err
                | Inr used' \<Rightarrow> flips_loop cutoff es used')
           | None \<Rightarrow>
               (case py_or (json_get kv ''side'') (py_or (json_get kv ''type'') (JStr [])) of
                  JStr s \<Rightarrow>
                    if map lower_char s \<in> {''buy'', ''bought'', ''buying''}
                    then (case add_entry cutoff used kv of
                            Inl err \<Rightarrow> Inl err
                          | Inr used' \<Rightarrow> flips_loop cutoff es used')
                    else flips_loop cutoff es used
                | _ \<Rightarrow> Inl AttributeError))
      | _ \<Rightarrow> flips_loop cutoff es used)"

text \<open>
  \<^verbatim>\<open>compute_remaining_from_flipper2\<close>. The directory is \<^verbatim>\<open>None\<close> when \<^verbatim>\<open>dir_path\<close> is empty
  or no directory; otherwise it is the pair of lists that \<^verbatim>\<open>_read_json_or_jsonl\<close> returns
  for the buys file and the flips file (empty for a missing or unreadable file).
\<close>

definition compute_remaining_from_flipper2 ::
  "clock \<Rightarrow> nat \<Rightarrow> (json list \<times> json list) option \<Rightarrow> (int \<rightharpoonup> int option)
     \<Rightarrow> (py_error + (int \<rightharpoonup> int)) \<times> nat" where
  "compute_remaining_from_flipper2 clk n dir buy_limits =
     (case dir of
        None \<Rightarrow> (Inr Map.empty, n)
      | Some (buys, flips) \<Rightarrow>
          let now = clk n;
              cutoff = now - FOUR_HOURS_SEC
          in (case buys_loop cutoff buys Map.empty of
                Inl err \<Rightarrow> (Inl err, Suc n)
              | Inr used \<Rightarrow>
                  (case flips_loop cutoff flips used of
                     Inl err \<Rightarrow> (Inl err, Suc n)
                   | Inr used' \<Rightarrow> (Inr (remaining_of buy_limits used'), Suc n))))"

section \<open>Events of the export in millisecond form\<close>





section \<open>Rounding to doubles\<close>

lemma expo_bounds:
  assumes "x \<noteq> 0"
  shows "2 powi (expo x) \<le> \<bar>x\<bar> \<and> \<bar>x\<bar> < 2 powi (expo x + 1)"
proof (cases "1 \<le> \<bar>x\<bar>")
  case True
  define n where "n = \<lfloor>\<bar>x\<bar>\<rfloor>"
  have n: "0 < n" using True by (simp add: n_def)
  from bitlen_bounds[OF n] have b: "2 ^ nat (bitlen n - 1) \<le> n" "n < 2 ^ nat (bitlen n)" by simp_all
  have bl: "1 \<le> bitlen n" using n by (simp add: bitlen_alt_def)
  have e: "expo x = bitlen n - 1" using True by (simp add: expo_def n_def)
  have "(2::real) powi (bitlen n - 1) = 2 ^ nat (bitlen n - 1)" using bl by (simp add: power_int_def)
  moreover have "(2::real) ^ nat (bitlen n - 1) \<le> of_int n"
    using b(1) by (metis of_int_le_iff of_int_numeral of_int_power)
  moreover have "of_int n \<le> \<bar>x\<bar>" by (simp add: n_def)
  ultimately have lo: "2 powi (expo x) \<le> \<bar>x\<bar>" unfolding e by linarith
  have "n + 1 \<le> 2 ^ nat (bitlen n)" using b(2) by simp
  then have "(of_int (n + 1) :: real) \<le> 2 ^ nat (bitlen n)"
    by (metis of_int_le_iff of_int_numeral of_int_power)
  moreover have "\<bar>x\<bar> < of_int (n + 1)" by (simp add: n_def)
  moreover have "(2::real) powi (bitlen n) = 2 ^ nat (bitlen n)" using bl by (simp add: power_int_def)
  ultimately have "\<bar>x\<bar> < 2 powi (bitlen n)" by linarith
  then have "\<bar>x\<bar> < 2 powi (expo x + 1)" by (simp add: e)
  with lo show ?thesis by simp
next
  case False
  define y where "y = 1 / \<bar>x\<bar>"
  have x0: "0 < \<bar>x\<bar>" using assms by simp
  have y1: "1 < y" using False x0 by (simp add: y_def)
  define c where "c = \<lceil>y\<rceil>"
  have c: "0 < c - 1" using y1 by (simp add: c_def)
  define j where "j = bitlen (c - 1)"
  from bitlen_bounds[OF c] have b: "2 ^ nat (j - 1) \<le> c - 1" "c - 1 < 2 ^ nat j" by (simp_all add: j_def)
  have jl: "1 \<le> j" using c by (simp add: bitlen_alt_def j_def)
  have e: "expo x = - j" using False by (simp add: expo_def j_def c_def y_def)
  have "c \<le> 2 ^ nat j" using b(2) by simp
  then have "(of_int c :: real) \<le> 2 ^ nat j" by (metis of_int_le_iff of_int_numeral of_int_power)
  moreover have "y \<le> of_int c" by (simp add: c_def)
  ultimately have yu: "y \<le> 2 ^ nat j" by linarith
  have "(2::real) ^ nat (j - 1) \<le> of_int (c - 1)"
    using b(1) by (metis of_int_le_iff of_int_numeral of_int_power)
  moreover have "of_int (c - 1) < y" by (simp add: c_def) linarith
  ultimately have yl: "2 ^ nat (j - 1) < y" by linarith
  have p1: "(2::real) powi (- j) = 1 / 2 ^ nat j" using jl by (simp add: power_int_def field_simps)
  have p2: "(2::real) powi (- j + 1) = 1 / 2 ^ nat (j - 1)"
    using jl by (cases "j = 1") (simp_all add: power_int_def field_simps)
  have "1 / 2 ^ nat j \<le> \<bar>x\<bar>"
    using yu x0 by (simp add: y_def field_simps)
  moreover have "\<bar>x\<bar> < 1 / 2 ^ nat (j - 1)"
    using yl x0 by (simp add: y_def field_simps)
  ultimately show ?thesis using e p1 p2 by simp
qed

lemma expo_unique:
  assumes "2 powi e \<le> \<bar>x\<bar>" "\<bar>x\<bar> < 2 powi (e + 1)"
  shows "expo x = e"
proof -
  have "0 < (2::real) powi e" by simp
  with assms(1) have "0 < \<bar>x\<bar>" by linarith
  then have x: "x \<noteq> 0" by simp
  from expo_bounds[OF x] have b: "2 powi (expo x) \<le> \<bar>x\<bar>" "\<bar>x\<bar> < 2 powi (expo x + 1)" by simp_all
  have "\<not> e < expo x"
  proof
    assume "e < expo x"
    then have "(2::real) powi (e + 1) \<le> 2 powi (expo x)" by (intro power_int_increasing) simp_all
    with assms(2) b(1) show False by linarith
  qed
  moreover have "\<not> expo x < e"
  proof
    assume "expo x < e"
    then have "(2::real) powi (expo x + 1) \<le> 2 powi e" by (intro power_int_increasing) simp_all
    with assms(1) b(2) show False by linarith
  qed
  ultimately show ?thesis by simp
qed


lemma round_even_of_int [simp]: "round_even (of_int k) = k"
  by (simp add: round_even_def)

lemma round_even_bounds: "\<lfloor>r\<rfloor> \<le> round_even r \<and> round_even r \<le> \<lfloor>r\<rfloor> + 1"
  by (simp add: round_even_def Let_def)

lemma round_even_mono:
  assumes "r \<le> s"
  shows "round_even r \<le> round_even s"
proof (cases "\<lfloor>r\<rfloor> = \<lfloor>s\<rfloor>")
  case True
  have "r - of_int \<lfloor>s\<rfloor> \<le> s - of_int \<lfloor>s\<rfloor>" using assms by simp
  then show ?thesis
    by (simp add: round_even_def Let_def True)
next
  case False
  have "\<lfloor>r\<rfloor> \<le> \<lfloor>s\<rfloor>" using assms by (rule floor_mono)
  with False have "\<lfloor>r\<rfloor> + 1 \<le> \<lfloor>s\<rfloor>" by simp
  with round_even_bounds[of r] round_even_bounds[of s] show ?thesis by linarith
qed

lemma round_even_ge: "of_int k \<le> r \<Longrightarrow> k \<le> round_even r"
  using round_even_mono[of "of_int k" r] by simp

lemma round_even_le: "r \<le> of_int k \<Longrightarrow> round_even r \<le> k"
  using round_even_mono[of r "of_int k"] by simp

lemma fl_zero [simp]: "fl 0 = 0"
  by (simp add: fl_def)

lemma fl_nonneg:
  assumes "0 \<le> x"
  shows "0 \<le> fl x"
proof (cases "x = 0")
  case False
  define q where "q = max (expo x) (- 1022) - 52"
  have "(0::real) \<le> x / 2 powi q" using assms by simp
  then have "0 \<le> round_even (x / 2 powi q)" using round_even_ge[of 0] by simp
  then show ?thesis using False by (simp add: fl_def Let_def q_def[symmetric])
qed simp

lemma fl_exact:
  assumes "\<bar>m\<bar> < 2 ^ 53" "- 1074 \<le> j"
  shows "fl (of_int m * 2 powi j) = of_int m * 2 powi j"
proof (cases "m = 0")
  case False
  define x :: real where "x = of_int m * 2 powi j"
  have x0: "x \<noteq> 0" using False by (simp add: x_def)
  define q where "q = max (expo x) (- 1022) - 52"
  have "(of_int \<bar>m\<bar> :: real) < 2 ^ 53" using assms(1) by (metis of_int_less_numeral_power_cancel_iff)
  then have "\<bar>x\<bar> < 2 ^ 53 * 2 powi j"
    by (simp add: x_def abs_mult)
  also have "\<dots> = 2 powi (53 + j)" by (simp add: power_int_add)
  finally have ub: "\<bar>x\<bar> < 2 powi (53 + j)" .
  have "expo x < 53 + j"
  proof (rule ccontr)
    assume "\<not> expo x < 53 + j"
    then have "(2::real) powi (53 + j) \<le> 2 powi (expo x)" by (intro power_int_increasing) simp_all
    with expo_bounds[OF x0] ub show False by linarith
  qed
  then have qj: "q \<le> j" using assms(2) by (simp add: q_def)
  have "x / 2 powi q = of_int m * 2 powi (j - q)"
    by (simp add: x_def power_int_diff)
  also have "\<dots> = of_int (m * 2 ^ nat (j - q))" using qj by (simp add: power_int_def)
  finally have r: "round_even (x / 2 powi q) = m * 2 ^ nat (j - q)"
    by (simp only: round_even_of_int)
  have "fl x = of_int (m * 2 ^ nat (j - q)) * 2 powi q"
    using x0 by (simp add: fl_def Let_def q_def[symmetric] r)
  also have "\<dots> = of_int m * (2 powi (j - q) * 2 powi q)" using qj by (simp add: power_int_def)
  also have "\<dots> = of_int m * 2 powi j" by (simp flip: power_int_add)
  finally show ?thesis by (simp add: x_def)
qed simp

lemma fl_pow2: "- 1074 \<le> j \<Longrightarrow> fl (2 powi j) = 2 powi j"
  using fl_exact[of 1 j] by simp

lemma fl_of_int:
  assumes "\<bar>k\<bar> \<le> 2 ^ 53"
  shows "fl (of_int k) = of_int k"
proof (cases "\<bar>k\<bar> < 2 ^ 53")
  case True
  then show ?thesis using fl_exact[of k 0] by simp
next
  case False
  with assms have "k = 2 ^ 53 \<or> k = - (2 ^ 53)" by linarith
  then show ?thesis
    using fl_exact[of 1 53] fl_exact[of "- 1" 53] by auto
qed


lemma expo_mono:
  assumes "0 < x" "x \<le> y"
  shows "expo x \<le> expo y"
proof (rule ccontr)
  assume "\<not> expo x \<le> expo y"
  then have "(2::real) powi (expo y + 1) \<le> 2 powi (expo x)" by (intro power_int_increasing) simp_all
  moreover have "2 powi (expo x) \<le> \<bar>x\<bar>" using expo_bounds[of x] assms(1) by simp
  moreover have "\<bar>y\<bar> < 2 powi (expo y + 1)" using expo_bounds[of y] assms by simp
  ultimately show False using assms by linarith
qed

lemma fl_upper:
  assumes "0 < x"
  shows "fl x \<le> 2 ^ 53 * 2 powi (max (expo x) (- 1022) - 52)"
proof -
  define q where "q = max (expo x) (- 1022) - 52"
  have "\<bar>x\<bar> < 2 powi (expo x + 1)" using expo_bounds[of x] assms by simp
  also have "\<dots> \<le> 2 powi (q + 53)" by (intro power_int_increasing) (simp_all add: q_def)
  also have "\<dots> = 2 ^ 53 * 2 powi q" by (simp add: power_int_add)
  finally have "x / 2 powi q \<le> 2 ^ 53" using assms by (simp add: field_simps)
  then have "x / 2 powi q \<le> of_int (2 ^ 53)" by simp
  then have "round_even (x / 2 powi q) \<le> 2 ^ 53" by (rule round_even_le)
  then have "(of_int (round_even (x / 2 powi q)) :: real) \<le> 2 ^ 53"
    by (metis of_int_le_numeral_power_cancel_iff)
  then have "(of_int (round_even (x / 2 powi q)) :: real) * 2 powi q \<le> 2 ^ 53 * 2 powi q"
    by (intro mult_right_mono) simp_all
  moreover have "fl x = of_int (round_even (x / 2 powi q)) * 2 powi q"
    using assms by (simp add: fl_def Let_def q_def)
  ultimately show ?thesis unfolding q_def by simp
qed

lemma fl_lower:
  assumes "0 < y" "- 1022 \<le> expo y"
  shows "2 powi (expo y) \<le> fl y"
proof -
  define q where "q = expo y - 52"
  have q: "max (expo y) (- 1022) - 52 = q" using assms(2) by (simp add: q_def)
  have "(2::real) powi (52 + q) = 2 powi 52 * 2 powi q" by (rule power_int_add) simp
  then have p: "(2 ^ 52 :: real) * 2 powi q = 2 powi (expo y)" by (simp add: q_def)
  have "2 powi (expo y) \<le> \<bar>y\<bar>" using expo_bounds[of y] assms by simp
  with p have "2 ^ 52 * 2 powi q \<le> y" using assms by simp
  then have "2 ^ 52 \<le> y / 2 powi q" by (simp add: field_simps)
  then have "of_int (2 ^ 52) \<le> y / 2 powi q" by simp
  then have "2 ^ 52 \<le> round_even (y / 2 powi q)" by (rule round_even_ge)
  then have "(2 ^ 52 :: real) \<le> of_int (round_even (y / 2 powi q))"
    by (metis numeral_power_le_of_int_cancel_iff)
  then have "(2 ^ 52 :: real) * 2 powi q \<le> of_int (round_even (y / 2 powi q)) * 2 powi q"
    by (intro mult_right_mono) simp_all
  then have "(2::real) powi (expo y) \<le> of_int (round_even (y / 2 powi q)) * 2 powi q"
    by (simp only: p)
  moreover have "fl y = of_int (round_even (y / 2 powi q)) * 2 powi q"
    using assms(1) by (simp add: fl_def Let_def q)
  ultimately show ?thesis by simp
qed

lemma fl_mono_nonneg:
  assumes "0 \<le> x" "x \<le> y"
  shows "fl x \<le> fl y"
proof (cases "x = 0")
  case True
  then show ?thesis using fl_nonneg[of y] assms by simp
next
  case False
  then have x: "0 < x" and y: "0 < y" using assms by simp_all
  define qx where "qx = max (expo x) (- 1022) - 52"
  define qy where "qy = max (expo y) (- 1022) - 52"
  have le: "qx \<le> qy" using expo_mono[OF x assms(2)] by (simp add: qx_def qy_def)
  show ?thesis
  proof (cases "qx = qy")
    case True
    have "x / 2 powi qy \<le> y / 2 powi qy" using assms(2) by (simp add: divide_right_mono)
    then have "round_even (x / 2 powi qy) \<le> round_even (y / 2 powi qy)" by (rule round_even_mono)
    then have "(of_int (round_even (x / 2 powi qy)) :: real) * 2 powi qy
                 \<le> of_int (round_even (y / 2 powi qy)) * 2 powi qy"
      by (intro mult_right_mono) simp_all
    then show ?thesis
      using x y True by (simp add: fl_def Let_def qx_def[symmetric] qy_def[symmetric])
  next
    case False
    with le have lt: "qx < qy" by simp
    then have ey: "- 1022 \<le> expo y" "qy = expo y - 52"
      by (auto simp add: qx_def qy_def max_def split: if_splits)
    have "fl x \<le> 2 ^ 53 * 2 powi qx" using fl_upper[OF x] by (simp add: qx_def)
    also have "\<dots> = 2 powi (qx + 53)" by (simp add: power_int_add)
    also have "\<dots> \<le> 2 powi (expo y)" using lt ey(2) by (intro power_int_increasing) simp_all
    also have "\<dots> \<le> fl y" using fl_lower[OF y ey(1)] .
    finally show ?thesis .
  qed
qed

lemma fl_form:
  assumes "x \<noteq> 0"
  shows "\<exists>m. fl x = of_int m * 2 powi (max (expo x) (- 1022) - 52) \<and> \<bar>m\<bar> \<le> 2 ^ 53"
proof -
  define q where "q = max (expo x) (- 1022) - 52"
  define m where "m = round_even (x / 2 powi q)"
  have "\<bar>x\<bar> < 2 powi (expo x + 1)" using expo_bounds[OF assms] by simp
  also have "\<dots> \<le> 2 powi (q + 53)" by (intro power_int_increasing) (simp_all add: q_def)
  also have "\<dots> = 2 ^ 53 * 2 powi q" by (simp add: power_int_add)
  finally have ax: "\<bar>x\<bar> \<le> 2 ^ 53 * 2 powi q" by simp
  then have "x \<le> 2 ^ 53 * 2 powi q" "- (2 ^ 53 * 2 powi q) \<le> x" by linarith+
  then have "x / 2 powi q \<le> 2 ^ 53" "- (2 ^ 53) \<le> x / 2 powi q"
    by (simp_all add: field_simps)
  then have "x / 2 powi q \<le> of_int (2 ^ 53)" "of_int (- (2 ^ 53)) \<le> x / 2 powi q" by simp_all
  then have "m \<le> 2 ^ 53" "- (2 ^ 53) \<le> m"
    unfolding m_def by (simp_all add: round_even_le round_even_ge)
  then have "\<bar>m\<bar> \<le> 2 ^ 53" by simp
  moreover have "fl x = of_int m * 2 powi q" using assms by (simp add: fl_def Let_def q_def m_def)
  ultimately show ?thesis unfolding q_def by blast
qed

lemma fl_exact_le:
  assumes "\<bar>m\<bar> \<le> 2 ^ 53" "- 1074 \<le> j"
  shows "fl (of_int m * 2 powi j) = of_int m * 2 powi j"
proof (cases "\<bar>m\<bar> < 2 ^ 53")
  case True
  then show ?thesis using assms(2) by (rule fl_exact)
next
  case False
  with assms have "m = 2 ^ 53 \<or> m = - (2 ^ 53)" by linarith
  moreover have "(2 ^ 53 :: real) * 2 powi j = 2 powi (53 + j)" by (simp add: power_int_add)
  ultimately show ?thesis
    using fl_exact[of 1 "53 + j"] fl_exact[of "- 1" "53 + j"] assms(2) by auto
qed

lemma fl_idem: "fl (fl x) = fl x"
proof (cases "x = 0")
  case False
  from fl_form[OF False] obtain m where
    m: "fl x = of_int m * 2 powi (max (expo x) (- 1022) - 52)" "\<bar>m\<bar> \<le> 2 ^ 53" by blast
  show ?thesis unfolding m(1) by (rule fl_exact_le[OF m(2)]) simp
qed simp

lemma expo_nonneg: "1 \<le> x \<Longrightarrow> 0 \<le> expo x"
proof -
  assume x: "1 \<le> x"
  then have "0 < \<lfloor>\<bar>x\<bar>\<rfloor>" by simp
  then have "1 \<le> bitlen \<lfloor>\<bar>x\<bar>\<rfloor>" by (simp add: bitlen_alt_def)
  then show ?thesis using x by (simp add: expo_def)
qed

lemma fl_quarter:
  assumes "1 \<le> x"
  shows "fl (fl x * 0.25) = fl x * 0.25"
proof -
  have x0: "x \<noteq> 0" using assms by simp
  define q where "q = max (expo x) (- 1022) - 52"
  from fl_form[OF x0] obtain m where m: "fl x = of_int m * 2 powi q" "\<bar>m\<bar> \<le> 2 ^ 53"
    unfolding q_def by blast
  have q: "- 52 \<le> q" using expo_nonneg[OF assms] by (simp add: q_def)
  have "fl x * 0.25 = of_int m * 2 powi (q - 2)" by (simp add: m(1) power_int_diff)
  moreover have "fl (of_int m * 2 powi (q - 2)) = of_int m * 2 powi (q - 2)"
    using m(2) q by (intro fl_exact_le) simp_all
  ultimately show ?thesis by simp
qed

lemma fl_less_double:
  assumes "1 \<le> x"
  shows "fl x < 2 * x"
proof -
  have x: "0 < x" "x \<noteq> 0" using assms by simp_all
  define e where "e = expo x"
  have e0: "0 \<le> e" using expo_nonneg[OF assms] by (simp add: e_def)
  have b: "2 powi e \<le> x" "x < 2 powi (e + 1)" using expo_bounds[OF x(2)] x(1) by (simp_all add: e_def)
  show ?thesis
  proof (cases "x = 2 powi e")
    case True
    then have "fl x = x" using fl_pow2[of e] e0 by simp
    then show ?thesis using x by simp
  next
    case False
    have "fl x \<le> fl (2 powi (e + 1))" using b(2) x(1) by (intro fl_mono_nonneg) simp_all
    also have "\<dots> = 2 powi (e + 1)" using e0 by (intro fl_pow2) simp
    also have "\<dots> = 2 * 2 powi e" by (simp add: power_int_add)
    also have "\<dots> < 2 * x" using b(1) False by simp
    finally show ?thesis .
  qed
qed


lemma fl_one: "fl 1 = 1"
  using fl_of_int[of 1] by simp

lemma fl_numeral: "numeral k \<le> (2::int) ^ 53 \<Longrightarrow> fl (numeral k) = numeral k"
  using fl_of_int[of "numeral k"] by simp

lemma float_of_int_exact: "\<bar>k\<bar> \<le> 2 ^ 53 \<Longrightarrow> float_of_int k = of_int k"
  by (simp add: float_of_int_def fl_of_int)

lemma float_of_int_nonneg: "0 \<le> k \<Longrightarrow> 0 \<le> float_of_int k"
  by (simp add: float_of_int_def fl_nonneg)

lemma float_of_int_ge_1: "1 \<le> k \<Longrightarrow> 1 \<le> float_of_int k"
proof -
  assume "1 \<le> k"
  then have "fl 1 \<le> fl (of_int k)" by (intro fl_mono_nonneg) simp_all
  then show ?thesis by (simp add: float_of_int_def fl_one)
qed

lemma fmul_nonneg: "0 \<le> x \<Longrightarrow> 0 \<le> y \<Longrightarrow> 0 \<le> fmul x y"
  by (simp add: fmul_def fl_nonneg)

section \<open>Properties of the price adjustment\<close>

lemma py_int_nonneg: "0 \<le> x \<Longrightarrow> py_int x = \<lfloor>x\<rfloor>"
  by (simp add: py_int_def)

lemma adjust_amount_bounds:
  assumes "b < s" "0 \<le> a" "a \<le> 1"
  shows "0 \<le> py_int (fmul (fmul (float_of_int (s - b)) 0.25) a)
         \<and> 2 * py_int (fmul (fmul (float_of_int (s - b)) 0.25) a) < s - b"
proof -
  define x :: real where "x = of_int (s - b)"
  have x1: "1 \<le> x" using assms(1) by (simp add: x_def)
  have q: "fl (fl x * 0.25) = fl x * 0.25" using x1 by (rule fl_quarter)
  have S0: "0 \<le> fl x" using x1 by (intro fl_nonneg) simp
  have S2: "fl x < 2 * x" using x1 by (rule fl_less_double)
  let ?y = "fl (fl x * 0.25 * a)"
  have y: "fmul (fmul (float_of_int (s - b)) 0.25) a = ?y"
    by (simp only: fmul_def float_of_int_def x_def[symmetric] q)
  have y0: "0 \<le> ?y" using S0 assms by (intro fl_nonneg) simp
  have "fl x * 0.25 * a \<le> fl x * 0.25 * 1" using S0 assms by (intro mult_left_mono) simp_all
  then have "?y \<le> fl (fl x * 0.25)" using S0 assms by (intro fl_mono_nonneg) simp_all
  then have "?y \<le> fl x * 0.25" by (simp only: q)
  then have y1: "4 * ?y \<le> fl x" by simp
  have "of_int \<lfloor>?y\<rfloor> \<le> ?y" by (rule of_int_floor_le)
  then have "2 * of_int \<lfloor>?y\<rfloor> < x" using y1 S2 by linarith
  then have "(of_int (2 * \<lfloor>?y\<rfloor>) :: real) < of_int (s - b)" by (simp only: x_def of_int_mult of_int_numeral)
  then have "2 * \<lfloor>?y\<rfloor> < s - b" by (simp only: of_int_less_iff)
  moreover have "0 \<le> \<lfloor>?y\<rfloor>" using y0 by simp
  moreover have "py_int ?y = \<lfloor>?y\<rfloor>" using y0 by (rule py_int_nonneg)
  ultimately show ?thesis by (simp only: y)
qed

text \<open>
  C6. For a base buy price \<open>b > 0\<close>, a base sell price \<open>s > b\<close> and an aggressiveness
  \<open>a\<close> in \<open>[0,1]\<close>, the adjustment moves buy up and sell down each by
  \<open>int(0.25 * a * (s - b))\<close>: the product as line 41 takes it, \<^verbatim>\<open>spread * 0.25 * a\<close> in
  double arithmetic, truncated toward zero. A pair with adjusted sell at most adjusted buy
  would revert to \<open>(b, s)\<close>; that never happens, and the returned pair always has sell
  above buy.
\<close>

theorem C6_adjusted_pair_keeps_spread:
  assumes "0 < b" "b < s" "0 \<le> a" "a \<le> 1"
  shows "adjust_prices_for_aggressiveness b s a =
           (if s - py_int (fmul (fmul (float_of_int (s - b)) 0.25) a)
                 \<le> b + py_int (fmul (fmul (float_of_int (s - b)) 0.25) a)
            then (b, s)
            else (b + py_int (fmul (fmul (float_of_int (s - b)) 0.25) a),
                  s - py_int (fmul (fmul (float_of_int (s - b)) 0.25) a)))
         \<and> adjust_prices_for_aggressiveness b s a =
             (b + py_int (fmul (fmul (float_of_int (s - b)) 0.25) a),
              s - py_int (fmul (fmul (float_of_int (s - b)) 0.25) a))
         \<and> fst (adjust_prices_for_aggressiveness b s a) < snd (adjust_prices_for_aggressiveness b s a)"
proof -
  have cl: "max 0 (min 1 a) = a" using assms by simp
  from adjust_amount_bounds[OF assms(2,3,4)]
  have d: "0 \<le> py_int (fmul (fmul (float_of_int (s - b)) 0.25) a)"
    "2 * py_int (fmul (fmul (float_of_int (s - b)) 0.25) a) < s - b"
    by auto
  then have gap: "b + py_int (fmul (fmul (float_of_int (s - b)) 0.25) a)
                    < s - py_int (fmul (fmul (float_of_int (s - b)) 0.25) a)"
    by linarith
  show ?thesis
    using assms gap
    by (simp add: adjust_prices_for_aggressiveness_def Let_def cl del: of_int_diff)
qed

theorem C6_adjusted_pair_keeps_spread_witness:
  "(0::int) < 100 \<and> (100::int) < 101 \<and> (0::real) \<le> 1
   \<and> 0 \<le> fl 0.29 \<and> fl 0.29 \<le> 1 \<and> 0 \<le> fl 0.3 \<and> fl 0.3 \<le> 1 \<and> 0 \<le> fl 0.7 \<and> fl 0.7 \<le> 1
   \<and> adjust_prices_for_aggressiveness 100 101 1 = (100, 101)
   \<and> adjust_prices_for_aggressiveness 100 200 1 = (125, 175)
   \<and> adjust_prices_for_aggressiveness 100 500 (fl 0.29) = (128, 472)
   \<and> adjust_prices_for_aggressiveness 100 140 (fl 0.3) = (103, 137)
   \<and> adjust_prices_for_aggressiveness 100 140 (fl 0.7) = (107, 133)"
proof -
  have r: "0 \<le> fl 0.29 \<and> fl 0.29 \<le> 1" "0 \<le> fl 0.3 \<and> fl 0.3 \<le> 1" "0 \<le> fl 0.7 \<and> fl 0.7 \<le> 1"
    by code_simp+
  have d: "py_int (fmul (fmul (float_of_int 1) 0.25) 1) = 0"
    "py_int (fmul (fmul (float_of_int 100) 0.25) 1) = 25"
    "py_int (fmul (fmul (float_of_int 400) 0.25) (fl 0.29)) = 28"
    "py_int (fmul (fmul (float_of_int 40) 0.25) (fl 0.3)) = 3"
    "py_int (fmul (fmul (float_of_int 40) 0.25) (fl 0.7)) = 7"
    by code_simp+
  show ?thesis
    using C6_adjusted_pair_keeps_spread[of 100 101 1] C6_adjusted_pair_keeps_spread[of 100 200 1]
      C6_adjusted_pair_keeps_spread[of 100 500 "fl 0.29"] C6_adjusted_pair_keeps_spread[of 100 140 "fl 0.3"]
      C6_adjusted_pair_keeps_spread[of 100 140 "fl 0.7"] r d
    by simp
qed

section \<open>The end-to-end scenario evaluated\<close>

lemma fresh_bound_nonneg: "0 \<le> fresh \<Longrightarrow> 0 \<le> fmul fresh (float_of_int 60)"
  by (intro fmul_nonneg float_of_int_nonneg) simp_all

lemma e2e_fresh:
  "is_fresh_enough (\<lambda>_. now) k (e2e_latest now 1) fresh policy = (True, if fresh \<le> 0 then k else Suc k)"
  using fresh_bound_nonneg[of fresh]
  by (simp add: is_fresh_enough_def e2e_latest_def dict_get_def)

lemma e2e_chosen:
  assumes "source = ''latest'' \<or> (source = ''hybrid'' \<and> 0 \<le> max_age)"
  shows "fst (choose_prices_for_item (\<lambda>_. now) k 1 (e2e_latest now) e2e_one_hour None source max_age)
           = Some (100, 120, 1000, 1000)"
  using assms
  by (auto simp add: choose_prices_for_item_def from_1h_def from_latest_def fallback_def e2e_latest_def e2e_one_hour_def dict_get_def
        int_or_0_def get_or_0_def Let_def fdiv_def float_of_int_def)

lemma e2e_quantity:
  "derive_quantity (e2e_args now source max_age fresh policy n) 1 100 1000 1000 = Some 50"
  by (simp add: derive_quantity_def e2e_args_def item_buy_limit_def item_rem_def py_int_def Let_def
        fmul_def float_of_int_exact fl_numeral)

lemma e2e_tax: "compute_tax_per_unit 120 = 2"
  by code_simp

lemma e2e_floats:
  "int_truediv 18 100 = fl (9 / 50)" "int_truediv 50 1000 = fl (1 / 20)"
  "fadd (fl (1 / 20)) (fl (1 / 20)) = fl (1 / 10)"
  "0 < fl (1 / 10)" "fdiv (float_of_int 900) (fl (1 / 10)) = 9000" "0 \<le> fl (9 / 50)"
  by code_simp+

lemma e2e_made:
  "make_suggestion (e2e_args now source max_age fresh policy n) 1 100 120 1000 1000 50 = Some e2e_suggestion"
proof -
  let ?a = "e2e_args now source max_age fresh policy n"
  have sel: "min_unit_profit_gp ?a = 0" "min_unit_roi ?a = 0" "item_buy_limit ?a 1 = Some 50"
    "item_rem ?a 1 = None" "mapping ?a 1 = Some \<lparr> wiki_item_id = 1, name = ''Item'', wiki_buy_limit = Some 50, members = None \<rparr>"
    by (simp_all add: e2e_args_def item_buy_limit_def item_rem_def)
  have roi: "\<not> fl (9 / 50) < 0" using e2e_floats(6) by simp
  show ?thesis
    unfolding make_suggestion_def e2e_tax Let_def sel e2e_suggestion_def
    using roi by (simp add: e2e_floats)
qed

lemma e2e_evaluated:
  "evaluate_item (e2e_args now source max_age fresh policy n) 1 (100, 120, 1000, 1000) = Some e2e_suggestion"
proof -
  have adj: "adjust_prices_for_aggressiveness 100 120 (aggressiveness (e2e_args now source max_age fresh policy n)) = (100, 120)"
    by (simp add: adjust_prices_for_aggressiveness_def e2e_args_def py_int_def Let_def fmul_def)
  have vol: "min_hourly_volume (e2e_args now source max_age fresh policy n) = 0"
    by (simp add: e2e_args_def)
  show ?thesis
    by (simp add: evaluate_item_def adj vol e2e_quantity e2e_made)
qed

lemma e2e_build:
  assumes "source = ''latest'' \<or> (source = ''hybrid'' \<and> 0 \<le> max_age)"
  shows "fst (build_suggestions (\<lambda>_. now) k None [1] (e2e_args now source max_age fresh policy n)) = [e2e_suggestion]"
proof -
  let ?a = "e2e_args now source max_age fresh policy n"
  have sel: "latest ?a = e2e_latest now" "one_hour ?a = e2e_one_hour" "fresh_minutes ?a = fresh"
    "fresh_policy ?a = policy" "price_source ?a = source" "latest_max_age_min ?a = max_age"
    "include_item_ids ?a = None" "top_n ?a = n"
    by (simp_all add: e2e_args_def)
  obtain c k' where ch: "choose_prices_for_item (\<lambda>_. now) (if fresh \<le> 0 then k else Suc k) 1
       (e2e_latest now) e2e_one_hour None source max_age = (c, k')"
    by (cases "choose_prices_for_item (\<lambda>_. now) (if fresh \<le> 0 then k else Suc k) 1
       (e2e_latest now) e2e_one_hour None source max_age") auto
  with e2e_chosen[OF assms, of now "if fresh \<le> 0 then k else Suc k"]
  have c: "c = Some (100, 120, 1000, 1000)" by simp
  have body: "loop_body (\<lambda>_. now) k None ?a 1 = (Some e2e_suggestion, k')"
    by (simp add: loop_body_def sel e2e_fresh ch c e2e_evaluated)
  show ?thesis
    by (simp add: build_suggestions_def universe_of_def sel body sort_reverse_def)
qed

lemma e2e_roi_close: "\<bar>fl 0.18 - 0.18\<bar> < 1 / 10 ^ 17"
  by code_simp

text \<open>
  C2. On the end-to-end input (catalog item 1 with cap 50; latest record buy 100, sell 120,
  both timestamps now; windowed record with both volumes 1000; budget 10000; floors 0;
  aggressiveness 0; liquidity fraction 1; minimum volume 0; fill hours 10) the engine
  returns exactly one suggestion: buy 100, sell 120, quantity 50, total profit 900,
  unit profit 18, ROI 0.18; the tax per unit at 120 is 2. The ROI is the float that Python
  writes \<^verbatim>\<open>0.18\<close>: the double nearest to 0.18, less than \<open>1 / 10 ^ 17\<close> away from it.
  The prices come from the latest record, so the price source is "latest", or "hybrid" with
  a non-negative age bound.
\<close>

theorem C2_end_to_end:
  assumes "source = ''latest'' \<or> (source = ''hybrid'' \<and> 0 \<le> max_age)"
  shows "fst (build_suggestions (\<lambda>_. now) k None [1] (e2e_args now source max_age fresh policy n)) = [e2e_suggestion]
         \<and> buy_price_gp e2e_suggestion = 100 \<and> sell_price_gp e2e_suggestion = 120
         \<and> quantity e2e_suggestion = 50 \<and> compute_tax_per_unit 120 = 2
         \<and> total_profit_gp e2e_suggestion = 900 \<and> unit_profit_gp e2e_suggestion = 18
         \<and> unit_roi e2e_suggestion = fl 0.18 \<and> \<bar>unit_roi e2e_suggestion - 0.18\<bar> < 1 / 10 ^ 17"
  using e2e_build[OF assms, of now k fresh policy n] e2e_roi_close
  by (simp add: e2e_tax e2e_suggestion_def)

theorem C2_end_to_end_witness:
  "fst (build_suggestions (\<lambda>_. 1700000000) 0 None [1] (e2e_args 1700000000 ''latest'' 20 10 ''both'' 10)) = [e2e_suggestion]
   \<and> fst (build_suggestions (\<lambda>_. 1700000000) 0 None [1] (e2e_args 1700000000 ''hybrid'' 20 10 ''any'' 10)) = [e2e_suggestion]
   \<and> fst (build_suggestions (\<lambda>_. 1700000000) 0 None [1] (e2e_args 1700000000 ''1h'' 20 10 ''both'' 10)) = []"
proof -
  have b: "(0::real) \<le> fmul 10 (float_of_int 60)" using fresh_bound_nonneg[of 10] by simp
  have "fst (build_suggestions (\<lambda>_. 1700000000) 0 None [1] (e2e_args 1700000000 ''1h'' 20 10 ''both'' 10)) = []"
    using b
    by (simp add: build_suggestions_def universe_of_def loop_body_def e2e_args_def is_fresh_enough_def e2e_latest_def
        e2e_one_hour_def dict_get_def choose_prices_for_item_def from_1h_def from_latest_def fallback_def int_or_0_def evaluate_item_def
        sort_reverse_def Let_def)
  then show ?thesis
    using C2_end_to_end[of "''latest''" 20 1700000000 0 10 "''both''" 10]
      C2_end_to_end[of "''hybrid''" 20 1700000000 0 10 "''any''" 10]
    by simp
qed

section \<open>What every emitted suggestion satisfies\<close>

lemma py_int_nonneg_ge: "0 \<le> x \<Longrightarrow> 0 \<le> py_int x"
  by (simp add: py_int_def)

lemma adjust_ordered:
  assumes "0 < b" "b < s" "adjust_prices_for_aggressiveness b s a = (bp, sp)"
  shows "b \<le> bp \<and> bp < sp"
proof -
  let ?d = "py_int (fmul (fmul (float_of_int (s - b)) 0.25) (max 0 (min 1 a)))"
  have "(0::real) \<le> fmul (fmul (float_of_int (s - b)) 0.25) (max 0 (min 1 a))"
    using assms(2) by (intro fmul_nonneg float_of_int_nonneg) simp_all
  then have d: "0 \<le> ?d" by (rule py_int_nonneg_ge)
  show ?thesis
  proof (cases "s - ?d \<le> b + ?d")
    case True
    then have "(bp, sp) = (b, s)"
      using assms by (simp add: adjust_prices_for_aggressiveness_def Let_def del: of_int_diff)
    then show ?thesis using assms by simp
  next
    case False
    then have "(bp, sp) = (b + ?d, s - ?d)"
      using assms by (simp add: adjust_prices_for_aggressiveness_def Let_def del: of_int_diff)
    then show ?thesis using False d by simp
  qed
qed

lemma derive_quantity_bounds:
  assumes "derive_quantity a iid bp lv hv = Some q"
  shows "1 \<le> q" and "q \<le> budget_gp a div bp"
    and "item_buy_limit a iid = Some cap \<Longrightarrow> q \<le> cap"
    and "item_rem a iid = Some r \<Longrightarrow> q \<le> r"
proof -
  define q0 where "q0 = budget_gp a div bp"
  define q1 where "q1 = (case item_buy_limit a iid of None \<Rightarrow> q0 | Some l \<Rightarrow> min q0 l)"
  define q2 where "q2 = (case item_rem a iid of None \<Rightarrow> q1 | Some r \<Rightarrow> min q1 r)"
  define q3 where "q3 = min q2 (min (max 1 (py_int (fmul (float_of_int lv) (max 0 (min 1 (liquidity_fraction a))))))
                                    (max 1 (py_int (fmul (float_of_int hv) (max 0 (min 1 (liquidity_fraction a)))))))"
  define q4 where "q4 = min q3 (min (py_int (fmul (float_of_int lv) (max 0 (max_fill_hours a))))
                                    (py_int (fmul (float_of_int hv) (max 0 (max_fill_hours a)))))"
  have "derive_quantity a iid bp lv hv =
          (if q0 \<le> 0 then None
           else if q3 \<le> 0 then None
           else if py_int (fmul (float_of_int lv) (max 0 (max_fill_hours a))) \<le> 0
                   \<or> py_int (fmul (float_of_int hv) (max 0 (max_fill_hours a))) \<le> 0 then None
           else if q4 \<le> 0 then None else Some q4)"
    by (simp only: derive_quantity_def Let_def q4_def q3_def q2_def q1_def q0_def)
  with assms have "\<not> q4 \<le> 0 \<and> q = q4"
    by (simp split: if_splits)
  then have q: "q = q4" "0 < q4" by auto
  have c43: "q4 \<le> q3" by (simp add: q4_def)
  have c32: "q3 \<le> q2" by (simp add: q3_def)
  have c21: "q2 \<le> q1" by (simp add: q2_def split: option.splits)
  have c10: "q1 \<le> q0" by (simp add: q1_def split: option.splits)
  show "1 \<le> q" using q by simp
  show "q \<le> budget_gp a div bp" using q c43 c32 c21 c10 by (simp add: q0_def)
  show "q \<le> cap" if "item_buy_limit a iid = Some cap"
  proof -
    have "q1 \<le> cap" using that by (simp add: q1_def)
    then show ?thesis using q c43 c32 c21 by simp
  qed
  show "q \<le> r" if "item_rem a iid = Some r"
  proof -
    have "q2 \<le> r" using that by (simp add: q2_def)
    then show ?thesis using q c43 c32 by simp
  qed
qed

lemma make_suggestion_fields:
  assumes "make_suggestion a iid bp sp lv hv q = Some s"
  shows "item_id s = iid" "buy_price_gp s = bp" "sell_price_gp s = sp" "quantity s = q"
    "min_unit_profit_gp a \<le> unit_profit_gp s" "min_unit_roi a \<le> unit_roi s"
  using assms
  by (auto simp add: make_suggestion_def Let_def split: if_splits)

lemma evaluate_item_Some:
  assumes "evaluate_item a iid (bb, bs, lv, hv) = Some s"
  shows "0 < bb \<and> bb < bs \<and>
         (\<exists>bp sp q. adjust_prices_for_aggressiveness bb bs (aggressiveness a) = (bp, sp)
            \<and> derive_quantity a iid bp lv hv = Some q
            \<and> make_suggestion a iid bp sp lv hv q = Some s)"
proof -
  obtain bp sp where adj: "adjust_prices_for_aggressiveness bb bs (aggressiveness a) = (bp, sp)"
    by (cases "adjust_prices_for_aggressiveness bb bs (aggressiveness a)") auto
  show ?thesis
  proof (cases "derive_quantity a iid bp lv hv")
    case None
    with assms adj show ?thesis
      by (simp add: evaluate_item_def split: if_splits)
  next
    case (Some q)
    with assms adj show ?thesis
      by (simp add: evaluate_item_def split: if_splits)
  qed
qed

lemma evaluate_item_invariants:
  assumes "evaluate_item a iid chosen = Some s"
  shows "item_id s = iid \<and> buy_price_gp s < sell_price_gp s \<and> 1 \<le> quantity s
         \<and> min_unit_profit_gp a \<le> unit_profit_gp s \<and> min_unit_roi a \<le> unit_roi s
         \<and> quantity s * buy_price_gp s \<le> budget_gp a
         \<and> (\<forall>cap. item_buy_limit a iid = Some cap \<longrightarrow> quantity s \<le> cap)
         \<and> (\<forall>r. item_rem a iid = Some r \<longrightarrow> quantity s \<le> r)"
proof -
  obtain bb bs lv hv where c: "chosen = (bb, bs, lv, hv)" by (cases chosen) auto
  from evaluate_item_Some[OF assms[unfolded c]] obtain bp sp q where
    pos: "0 < bb" "bb < bs"
    and adj: "adjust_prices_for_aggressiveness bb bs (aggressiveness a) = (bp, sp)"
    and dq: "derive_quantity a iid bp lv hv = Some q"
    and mk: "make_suggestion a iid bp sp lv hv q = Some s"
    by blast
  from adjust_ordered[OF pos adj] have ord: "bb \<le> bp" "bp < sp" by auto
  then have bp0: "0 < bp" using pos by simp
  note f = make_suggestion_fields[OF mk]
  note b = derive_quantity_bounds[OF dq]
  have "q * bp \<le> (budget_gp a div bp) * bp"
    using b(2) bp0 by (simp add: mult_right_mono)
  also have "\<dots> \<le> budget_gp a"
  proof -
    have "budget_gp a = (budget_gp a div bp) * bp + budget_gp a mod bp" by simp
    moreover have "0 \<le> budget_gp a mod bp" using bp0 by simp
    ultimately show ?thesis by linarith
  qed
  finally have bud: "q * bp \<le> budget_gp a" .
  show ?thesis
    using f b(1) ord bud b(3) b(4) by simp
qed

lemma loop_body_Some:
  assumes "loop_body clk n five_min a iid = (Some s, n')"
  shows "\<exists>chosen. evaluate_item a iid chosen = Some s"
  using assms
  by (auto simp add: loop_body_def split: prod.splits if_splits option.splits)

lemma run_loop_results:
  assumes "s \<in> set (fst (run_loop clk n five_min a us acc))"
  shows "s \<in> set acc \<or> (\<exists>iid\<in>set us. \<exists>k k'. loop_body clk k five_min a iid = (Some s, k'))"
  using assms
proof (induction us arbitrary: n acc)
  case Nil
  then show ?case by simp
next
  case (Cons iid us)
  obtain r n' where lb: "loop_body clk n five_min a iid = (r, n')"
    by (cases "loop_body clk n five_min a iid") auto
  show ?case
  proof (cases r)
    case None
    with Cons.prems lb have "s \<in> set (fst (run_loop clk n' five_min a us acc))" by simp
    from Cons.IH[OF this] show ?thesis by auto
  next
    case (Some s')
    with Cons.prems lb have "s \<in> set (fst (run_loop clk n' five_min a us (acc @ [s'])))" by simp
    from Cons.IH[OF this] lb[unfolded Some] show ?thesis by auto
  qed
qed

lemma set_insort_desc: "set (insort_desc x ys) = insert x (set ys)"
  by (induction ys) auto

lemma set_sort_reverse: "set (sort_reverse xs) = set xs"
  by (induction xs) (auto simp add: sort_reverse_def set_insort_desc)

lemma build_suggestions_members:
  assumes "s \<in> set (fst (build_suggestions clk n five_min order a))"
  shows "\<exists>iid\<in>set order. \<exists>k k'. loop_body clk k five_min a iid = (Some s, k')"
proof -
  from assms have "s \<in> set (take (nat (max 1 (top_n a)))
      (sort_reverse (fst (run_loop clk n five_min a (universe_of a order) []))))"
    by (simp add: build_suggestions_def split: prod.splits)
  then have "s \<in> set (fst (run_loop clk n five_min a (universe_of a order) []))"
    using set_sort_reverse by (metis in_set_takeD)
  from run_loop_results[OF this] obtain iid k k' where
    "iid \<in> set (universe_of a order)" "loop_body clk k five_min a iid = (Some s, k')" by auto
  moreover have "set (universe_of a order) \<subseteq> set order"
    by (auto simp add: universe_of_def split: option.splits)
  ultimately show ?thesis by blast
qed

text \<open>
  C1. Every suggestion the engine emits, under any inputs, has sell price above buy price,
  quantity at least 1, unit profit and unit ROI at least their configured floors, cost
  quantity times buy price within the budget, quantity within the item's purchase cap when
  the catalog supplies one, and quantity within the remaining allowance when the
  remaining-allowance map holds a value for the item.
\<close>

theorem C1_suggestion_invariants:
  assumes "s \<in> set (fst (build_suggestions clk n five_min order a))"
  shows "buy_price_gp s < sell_price_gp s \<and> 1 \<le> quantity s
         \<and> min_unit_profit_gp a \<le> unit_profit_gp s \<and> min_unit_roi a \<le> unit_roi s
         \<and> quantity s * buy_price_gp s \<le> budget_gp a
         \<and> (\<forall>item cap. mapping a (item_id s) = Some item \<and> wiki_buy_limit item = Some cap \<longrightarrow> quantity s \<le> cap)
         \<and> (\<forall>m r. remaining_limits a = Some m \<and> m (item_id s) = Some r \<longrightarrow> quantity s \<le> r)"
proof -
  from build_suggestions_members[OF assms] obtain iid k k' where
    "loop_body clk k five_min a iid = (Some s, k')" by auto
  from loop_body_Some[OF this] obtain chosen where
    ev: "evaluate_item a iid chosen = Some s" by auto
  note inv = evaluate_item_invariants[OF ev]
  have cap: "quantity s \<le> cap" if "mapping a (item_id s) = Some item" "wiki_buy_limit item = Some cap" for item cap
  proof -
    have "item_buy_limit a iid = Some cap" using that inv by (simp add: item_buy_limit_def)
    then show ?thesis using inv by simp
  qed
  have rem: "quantity s \<le> r" if "remaining_limits a = Some m" "m (item_id s) = Some r" for m r
  proof -
    have "item_rem a iid = Some (max 0 r)" using that inv by (simp add: item_rem_def)
    then have "quantity s \<le> max 0 r" using inv by simp
    moreover have "1 \<le> quantity s" using inv by simp
    ultimately show ?thesis by linarith
  qed
  show ?thesis using inv cap rem by blast
qed

theorem C1_suggestion_invariants_witness:
  "e2e_suggestion \<in> set (fst (build_suggestions (\<lambda>_. 1700000000) 0 None [1]
       (e2e_args 1700000000 ''latest'' 20 10 ''both'' 10)))
   \<and> buy_price_gp e2e_suggestion < sell_price_gp e2e_suggestion
   \<and> 1 \<le> quantity e2e_suggestion
   \<and> quantity e2e_suggestion * buy_price_gp e2e_suggestion
        \<le> budget_gp (e2e_args 1700000000 ''latest'' 20 10 ''both'' 10)
   \<and> quantity e2e_suggestion \<le> 50"
proof -
  have m: "e2e_suggestion \<in> set (fst (build_suggestions (\<lambda>_. 1700000000) 0 None [1]
       (e2e_args 1700000000 ''latest'' 20 10 ''both'' 10)))"
    using e2e_build[of "''latest''" 20 1700000000 0 10 "''both''" 10] by simp
  have "mapping (e2e_args 1700000000 ''latest'' 20 10 ''both'' 10) (item_id e2e_suggestion)
          = Some \<lparr> wiki_item_id = 1, name = ''Item'', wiki_buy_limit = Some 50, members = None \<rparr>"
    by (simp add: e2e_args_def e2e_suggestion_def)
  with C1_suggestion_invariants[OF m] m show ?thesis by simp
qed


section \<open>The quantity derivation\<close>

lemma derive_quantity_folded:
  "derive_quantity a iid bp lv hv =
     (let q0 = budget_gp a div bp;
          q1 = (case item_buy_limit a iid of None \<Rightarrow> q0 | Some l \<Rightarrow> min q0 l);
          q2 = (case item_rem a iid of None \<Rightarrow> q1 | Some r \<Rightarrow> min q1 r);
          q3 = min q2 (min (max 1 (py_int (fmul (float_of_int lv) (max 0 (min 1 (liquidity_fraction a))))))
                           (max 1 (py_int (fmul (float_of_int hv) (max 0 (min 1 (liquidity_fraction a)))))));
          t1 = py_int (fmul (float_of_int lv) (max 0 (max_fill_hours a)));
          t2 = py_int (fmul (float_of_int hv) (max 0 (max_fill_hours a)));
          q4 = min q3 (min t1 t2)
      in if q4 \<le> 0 then None else Some q4)"
proof -
  define q0 where "q0 = budget_gp a div bp"
  define q1 where "q1 = (case item_buy_limit a iid of None \<Rightarrow> q0 | Some l \<Rightarrow> min q0 l)"
  define q2 where "q2 = (case item_rem a iid of None \<Rightarrow> q1 | Some r \<Rightarrow> min q1 r)"
  define q3 where "q3 = min q2 (min (max 1 (py_int (fmul (float_of_int lv) (max 0 (min 1 (liquidity_fraction a))))))
                                    (max 1 (py_int (fmul (float_of_int hv) (max 0 (min 1 (liquidity_fraction a)))))))"
  define t1 where "t1 = py_int (fmul (float_of_int lv) (max 0 (max_fill_hours a)))"
  define t2 where "t2 = py_int (fmul (float_of_int hv) (max 0 (max_fill_hours a)))"
  define q4 where "q4 = min q3 (min t1 t2)"
  have code: "derive_quantity a iid bp lv hv =
          (if q0 \<le> 0 then None
           else if q3 \<le> 0 then None
           else if t1 \<le> 0 \<or> t2 \<le> 0 then None
           else if q4 \<le> 0 then None else Some q4)"
    by (simp only: derive_quantity_def Let_def q4_def t1_def t2_def q3_def q2_def q1_def q0_def)
  have c43: "q4 \<le> q3" "q4 \<le> t1" "q4 \<le> t2" by (simp_all add: q4_def)
  have c32: "q3 \<le> q2" by (simp add: q3_def)
  have c21: "q2 \<le> q1" by (simp add: q2_def split: option.splits)
  have c10: "q1 \<le> q0" by (simp add: q1_def split: option.splits)
  have "q4 \<le> q0" using c43(1) c32 c21 c10 by linarith
  then have "derive_quantity a iid bp lv hv = (if q4 \<le> 0 then None else Some q4)"
    using code c43 by auto
  then show ?thesis
    by (simp only: Let_def q4_def t1_def t2_def q3_def q2_def q1_def q0_def)
qed

lemma Min_caps_general:
  fixes q0 c1 c2 t1 t2 :: int
  shows "Min (set ([q0] @ (case ol of None \<Rightarrow> [] | Some l \<Rightarrow> [l])
                  @ (case orr of None \<Rightarrow> [] | Some r \<Rightarrow> [r]) @ [c1, c2, t1, t2]))
         = min (min (case orr of
                       None \<Rightarrow> (case ol of None \<Rightarrow> q0 | Some l \<Rightarrow> min q0 l)
                     | Some r \<Rightarrow> min (case ol of None \<Rightarrow> q0 | Some l \<Rightarrow> min q0 l) r)
                    (min c1 c2))
               (min t1 t2)"
  by (cases ol; cases orr) (simp_all add: min.assoc)

lemma Min_quantity_caps:
  "Min (set (quantity_caps a iid bp lv hv)) =
     (let q0 = budget_gp a div bp;
          q1 = (case item_buy_limit a iid of None \<Rightarrow> q0 | Some l \<Rightarrow> min q0 l);
          q2 = (case item_rem a iid of None \<Rightarrow> q1 | Some r \<Rightarrow> min q1 r);
          q3 = min q2 (min (max 1 (py_int (fmul (float_of_int lv) (max 0 (min 1 (liquidity_fraction a))))))
                           (max 1 (py_int (fmul (float_of_int hv) (max 0 (min 1 (liquidity_fraction a)))))));
          t1 = py_int (fmul (float_of_int lv) (max 0 (max_fill_hours a)));
          t2 = py_int (fmul (float_of_int hv) (max 0 (max_fill_hours a)));
          q4 = min q3 (min t1 t2)
      in q4)"
  unfolding quantity_caps_def Let_def by (rule Min_caps_general)

text \<open>
  C5 (amended). The quantity is the minimum of budget // buy price, the purchase cap if
  known, the remaining allowance clamped at 0 if supplied, the two liquidity capacities
  \<open>max(1, int(volume * liquidity_fraction))\<close> with the fraction clamped to \<open>[0,1]\<close>, and the
  two fill-time caps \<open>int(volume * max(0, max_fill_hours))\<close>, each product taken in double
  arithmetic and truncated; the item is excluded exactly when that minimum is zero or
  negative. A liquidity capacity that truncates to 0 is raised to 1 and does not exclude
  the item.
\<close>

theorem C5_quantity_is_minimum_of_caps:
  "derive_quantity a iid bp lv hv =
     (if Min (set (quantity_caps a iid bp lv hv)) \<le> 0 then None
      else Some (Min (set (quantity_caps a iid bp lv hv))))
   \<and> (evaluate_item a iid (bb, bs, lv, hv) = Some s \<longrightarrow>
        quantity s = Min (set (quantity_caps a iid (buy_price_gp s) lv hv)) \<and> 1 \<le> quantity s)"
proof -
  have dq: "derive_quantity a iid p lv hv =
     (if Min (set (quantity_caps a iid p lv hv)) \<le> 0 then None
      else Some (Min (set (quantity_caps a iid p lv hv))))" for p
    by (simp only: derive_quantity_folded Min_quantity_caps Let_def)
  have "quantity s = Min (set (quantity_caps a iid (buy_price_gp s) lv hv)) \<and> 1 \<le> quantity s"
    if ev: "evaluate_item a iid (bb, bs, lv, hv) = Some s"
  proof -
    from evaluate_item_Some[OF ev] obtain bp sp q where
      q: "derive_quantity a iid bp lv hv = Some q"
      and mk: "make_suggestion a iid bp sp lv hv q = Some s"
      by blast
    from make_suggestion_fields[OF mk] have f: "buy_price_gp s = bp" "quantity s = q" by simp_all
    from q have "\<not> Min (set (quantity_caps a iid bp lv hv)) \<le> 0 \<and> q = Min (set (quantity_caps a iid bp lv hv))"
      by (simp add: dq[of bp] split: if_splits)
    then show ?thesis using f by simp
  qed
  then show ?thesis using dq[of bp] by blast
qed

theorem C5_quantity_is_minimum_of_caps_witness:
  "evaluate_item (e2e_args 1700000000 ''latest'' 20 10 ''both'' 10) 1 (100, 120, 1000, 1000) = Some e2e_suggestion
   \<and> quantity_caps (e2e_args 1700000000 ''latest'' 20 10 ''both'' 10) 1 100 1000 1000
       = [100, 50, 1000, 1000, 10000, 10000]
   \<and> quantity e2e_suggestion = Min (set [100, 50, 1000, 1000, 10000, 10000])
   \<and> quantity_caps (e2e_args_liquidity (fl 0.29)) 1 100 100 100 = [100, 50, 28, 28, 1000, 1000]
   \<and> derive_quantity (e2e_args_liquidity (fl 0.29)) 1 100 100 100 = Some 28"
proof -
  let ?a = "e2e_args 1700000000 ''latest'' 20 10 ''both'' 10"
  have caps: "quantity_caps ?a 1 100 1000 1000 = [100, 50, 1000, 1000, 10000, 10000]"
    by (simp add: quantity_caps_def e2e_args_def item_buy_limit_def item_rem_def py_int_def
          fmul_def float_of_int_exact fl_numeral)
  have bp: "buy_price_gp e2e_suggestion = 100" by (simp add: e2e_suggestion_def)
  have p: "py_int (fmul (float_of_int 100) (max 0 (min 1 (fl (29 / 100))))) = 28"
    "py_int (fmul (float_of_int 100) 10) = 1000"
    by code_simp+
  have caps': "quantity_caps (e2e_args_liquidity (fl (29 / 100))) 1 100 100 100 = [100, 50, 28, 28, 1000, 1000]"
    by (simp add: quantity_caps_def e2e_args_liquidity_def e2e_args_def item_buy_limit_def item_rem_def p)
  from C5_quantity_is_minimum_of_caps[of ?a 1 100 1000 1000 100 120 e2e_suggestion]
    C5_quantity_is_minimum_of_caps[of "e2e_args_liquidity (fl 0.29)" 1 100 100 100 100 120 e2e_suggestion]
    e2e_evaluated[of 1700000000 "''latest''" 20 10 "''both''" 10]
  show ?thesis by (simp add: caps caps' bp)
qed

theorem C5_zero_liquidity_counterexample:
  "py_int (fmul (float_of_int 1000) (max 0 (min 1 (liquidity_fraction e2e_args_no_liquidity)))) = 0
   \<and> map quantity (fst (build_suggestions (\<lambda>_. 1700000000) 0 None [1] e2e_args_no_liquidity)) = [1]"
proof -
  let ?a = "e2e_args_no_liquidity"
  have sel: "latest ?a = e2e_latest 1700000000" "one_hour ?a = e2e_one_hour" "fresh_minutes ?a = 10"
    "fresh_policy ?a = ''both''" "price_source ?a = ''latest''" "latest_max_age_min ?a = 20"
    "include_item_ids ?a = None" "top_n ?a = 10" "liquidity_fraction ?a = 0"
    "min_hourly_volume ?a = 0" "aggressiveness ?a = 0" "min_unit_profit_gp ?a = 0" "min_unit_roi ?a = 0"
    by (simp_all add: e2e_args_no_liquidity_def e2e_args_liquidity_def e2e_args_def)
  have z: "py_int (fmul (float_of_int 1000) (max 0 (min 1 (liquidity_fraction ?a)))) = 0"
    by (simp add: sel py_int_def fmul_def)
  have ch: "choose_prices_for_item (\<lambda>_. 1700000000) k 1 (e2e_latest 1700000000) e2e_one_hour None ''latest'' 20
              = (Some (100, 120, 1000, 1000), k)" for k
    by (simp add: choose_prices_for_item_def from_1h_def from_latest_def fallback_def e2e_latest_def e2e_one_hour_def dict_get_def
          int_or_0_def get_or_0_def Let_def)
  have dq: "derive_quantity ?a 1 100 1000 1000 = Some 1"
    by (simp add: derive_quantity_def e2e_args_no_liquidity_def e2e_args_liquidity_def e2e_args_def item_buy_limit_def
          item_rem_def py_int_def Let_def fmul_def float_of_int_exact fl_numeral)
  have adj: "adjust_prices_for_aggressiveness 100 120 0 = (100, 120)"
    by (simp add: adjust_prices_for_aggressiveness_def py_int_def Let_def fmul_def)
  obtain s where mk: "make_suggestion ?a 1 100 120 1000 1000 1 = Some s" and qs: "quantity s = 1"
    using e2e_floats(6) by (simp add: make_suggestion_def e2e_tax Let_def sel e2e_floats(1))
  have ev: "evaluate_item ?a 1 (100, 120, 1000, 1000) = Some s"
    by (simp add: evaluate_item_def sel adj dq mk)
  have body: "loop_body (\<lambda>_. 1700000000) 0 None ?a 1 = (Some s, Suc 0)"
    by (simp add: loop_body_def sel e2e_fresh ch ev)
  have "fst (build_suggestions (\<lambda>_. 1700000000) 0 None [1] ?a) = [s]"
    by (simp add: build_suggestions_def universe_of_def sel body sort_reverse_def)
  then show ?thesis using z qs by simp
qed


section \<open>The hybrid price source\<close>

lemma get_or_0_present: "w \<noteq> [] \<Longrightarrow> get_or_0 (Some w) k = int_or_0 (dict_get w k)"
  by (simp add: get_or_0_def)

lemma hybrid_fresh:
  assumes "lat iid = Some t" "dict_get t ''highTime'' = Some h" "dict_get t ''lowTime'' = Some l"
    "fdiv (float_of_int (clk n - h)) 60 \<le> max_age" "fdiv (float_of_int (clk n - l)) 60 \<le> max_age"
  shows "choose_prices_for_item clk n iid lat oh five_min ''hybrid'' max_age = (from_latest (oh iid) t, Suc n)"
proof -
  from assms(2) have "t \<noteq> []" by (auto simp add: dict_get_def)
  with assms show ?thesis by (simp add: choose_prices_for_item_def Let_def)
qed

lemma hybrid_stale:
  assumes "\<not> (\<exists>t h l. lat iid = Some t \<and> dict_get t ''highTime'' = Some h \<and> dict_get t ''lowTime'' = Some l
             \<and> fdiv (float_of_int (clk n - h)) 60 \<le> max_age \<and> fdiv (float_of_int (clk n - l)) 60 \<le> max_age)"
  shows "fst (choose_prices_for_item clk n iid lat oh five_min ''hybrid'' max_age)
           = fallback (case five_min of None \<Rightarrow> None | Some f \<Rightarrow> f iid) (oh iid)"
proof (cases "lat iid")
  case None
  then show ?thesis by (simp add: choose_prices_for_item_def Let_def)
next
  case (Some t)
  show ?thesis
  proof (cases "dict_get t ''highTime''")
    case None
    with Some show ?thesis by (simp add: choose_prices_for_item_def Let_def)
  next
    case h: (Some h)
    show ?thesis
    proof (cases "dict_get t ''lowTime''")
      case None
      with Some h show ?thesis by (simp add: choose_prices_for_item_def Let_def)
    next
      case l: (Some l)
      from assms Some h l
      have "\<not> (fdiv (float_of_int (clk n - h)) 60 \<le> max_age \<and> fdiv (float_of_int (clk n - l)) 60 \<le> max_age)"
        by blast
      with Some h l show ?thesis by (auto simp add: choose_prices_for_item_def Let_def)
    qed
  qed
qed

text \<open>
  C9 (amended). Under the "hybrid" policy: when the latest record has both timestamps and
  both ages in minutes, \<^verbatim>\<open>(now - t) / 60.0\<close> in double arithmetic, are within the threshold,
  its last prices are returned. Otherwise, when a five-minute feed is supplied and holds a
  non-empty record for the item, the averages of that record are returned. Otherwise the
  windowed record's average prices are returned when that record is present and not
  empty; otherwise nothing is returned. In every returned case the two volumes are those
  of the windowed record, or zero without it.
\<close>

theorem C9_hybrid_selection:
  "(lat iid = Some t \<and> dict_get t ''highTime'' = Some h \<and> dict_get t ''lowTime'' = Some l
      \<and> fdiv (float_of_int (clk n - h)) 60 \<le> max_age \<and> fdiv (float_of_int (clk n - l)) 60 \<le> max_age
    \<longrightarrow> fst (choose_prices_for_item clk n iid lat oh five_min ''hybrid'' max_age)
          = Some (int_or_0 (dict_get t ''low''), int_or_0 (dict_get t ''high''),
                  get_or_0 (oh iid) ''lowPriceVolume'', get_or_0 (oh iid) ''highPriceVolume''))
   \<and> (\<not> (\<exists>t h l. lat iid = Some t \<and> dict_get t ''highTime'' = Some h \<and> dict_get t ''lowTime'' = Some l
             \<and> fdiv (float_of_int (clk n - h)) 60 \<le> max_age \<and> fdiv (float_of_int (clk n - l)) 60 \<le> max_age)
      \<and> five_min = Some f \<and> f iid = Some r \<and> r \<noteq> []
    \<longrightarrow> fst (choose_prices_for_item clk n iid lat oh five_min ''hybrid'' max_age)
          = Some (int_or_0 (dict_get r ''avgLowPrice''), int_or_0 (dict_get r ''avgHighPrice''),
                  get_or_0 (oh iid) ''lowPriceVolume'', get_or_0 (oh iid) ''highPriceVolume''))
   \<and> (\<not> (\<exists>t h l. lat iid = Some t \<and> dict_get t ''highTime'' = Some h \<and> dict_get t ''lowTime'' = Some l
             \<and> fdiv (float_of_int (clk n - h)) 60 \<le> max_age \<and> fdiv (float_of_int (clk n - l)) 60 \<le> max_age)
      \<and> \<not> truthy (case five_min of None \<Rightarrow> None | Some f \<Rightarrow> f iid)
      \<and> oh iid = Some w \<and> w \<noteq> []
    \<longrightarrow> fst (choose_prices_for_item clk n iid lat oh five_min ''hybrid'' max_age)
          = Some (int_or_0 (dict_get w ''avgLowPrice''), int_or_0 (dict_get w ''avgHighPrice''),
                  get_or_0 (oh iid) ''lowPriceVolume'', get_or_0 (oh iid) ''highPriceVolume''))
   \<and> (\<not> (\<exists>t h l. lat iid = Some t \<and> dict_get t ''highTime'' = Some h \<and> dict_get t ''lowTime'' = Some l
             \<and> fdiv (float_of_int (clk n - h)) 60 \<le> max_age \<and> fdiv (float_of_int (clk n - l)) 60 \<le> max_age)
      \<and> \<not> truthy (case five_min of None \<Rightarrow> None | Some f \<Rightarrow> f iid)
      \<and> \<not> truthy (oh iid)
    \<longrightarrow> fst (choose_prices_for_item clk n iid lat oh five_min ''hybrid'' max_age) = None)"
proof (intro conjI impI)
  assume a: "lat iid = Some t \<and> dict_get t ''highTime'' = Some h \<and> dict_get t ''lowTime'' = Some l
      \<and> fdiv (float_of_int (clk n - h)) 60 \<le> max_age \<and> fdiv (float_of_int (clk n - l)) 60 \<le> max_age"
  then have "choose_prices_for_item clk n iid lat oh five_min ''hybrid'' max_age = (from_latest (oh iid) t, Suc n)"
    using hybrid_fresh[of lat iid t h l clk n max_age oh five_min] by blast
  then show "fst (choose_prices_for_item clk n iid lat oh five_min ''hybrid'' max_age)
          = Some (int_or_0 (dict_get t ''low''), int_or_0 (dict_get t ''high''),
                  get_or_0 (oh iid) ''lowPriceVolume'', get_or_0 (oh iid) ''highPriceVolume'')"
    by (simp add: from_latest_def)
next
  assume a: "\<not> (\<exists>t h l. lat iid = Some t \<and> dict_get t ''highTime'' = Some h \<and> dict_get t ''lowTime'' = Some l
             \<and> fdiv (float_of_int (clk n - h)) 60 \<le> max_age \<and> fdiv (float_of_int (clk n - l)) 60 \<le> max_age)
      \<and> five_min = Some f \<and> f iid = Some r \<and> r \<noteq> []"
  then have "fst (choose_prices_for_item clk n iid lat oh five_min ''hybrid'' max_age)
           = fallback (case five_min of None \<Rightarrow> None | Some f \<Rightarrow> f iid) (oh iid)"
    by (intro hybrid_stale) simp
  with a show "fst (choose_prices_for_item clk n iid lat oh five_min ''hybrid'' max_age)
          = Some (int_or_0 (dict_get r ''avgLowPrice''), int_or_0 (dict_get r ''avgHighPrice''),
                  get_or_0 (oh iid) ''lowPriceVolume'', get_or_0 (oh iid) ''highPriceVolume'')"
    by (simp add: fallback_def)
next
  assume a: "\<not> (\<exists>t h l. lat iid = Some t \<and> dict_get t ''highTime'' = Some h \<and> dict_get t ''lowTime'' = Some l
             \<and> fdiv (float_of_int (clk n - h)) 60 \<le> max_age \<and> fdiv (float_of_int (clk n - l)) 60 \<le> max_age)
      \<and> \<not> truthy (case five_min of None \<Rightarrow> None | Some f \<Rightarrow> f iid)
      \<and> oh iid = Some w \<and> w \<noteq> []"
  then have "fst (choose_prices_for_item clk n iid lat oh five_min ''hybrid'' max_age)
           = fallback (case five_min of None \<Rightarrow> None | Some f \<Rightarrow> f iid) (oh iid)"
    by (intro hybrid_stale) simp
  moreover have "fallback (case five_min of None \<Rightarrow> None | Some f \<Rightarrow> f iid) (oh iid) = from_1h (oh iid)"
    using a by (simp add: fallback_def truthy_def split: option.splits)
  ultimately show "fst (choose_prices_for_item clk n iid lat oh five_min ''hybrid'' max_age)
          = Some (int_or_0 (dict_get w ''avgLowPrice''), int_or_0 (dict_get w ''avgHighPrice''),
                  get_or_0 (oh iid) ''lowPriceVolume'', get_or_0 (oh iid) ''highPriceVolume'')"
    using a by (simp add: from_1h_def get_or_0_present)
next
  assume a: "\<not> (\<exists>t h l. lat iid = Some t \<and> dict_get t ''highTime'' = Some h \<and> dict_get t ''lowTime'' = Some l
             \<and> fdiv (float_of_int (clk n - h)) 60 \<le> max_age \<and> fdiv (float_of_int (clk n - l)) 60 \<le> max_age)
      \<and> \<not> truthy (case five_min of None \<Rightarrow> None | Some f \<Rightarrow> f iid)
      \<and> \<not> truthy (oh iid)"
  then have "fst (choose_prices_for_item clk n iid lat oh five_min ''hybrid'' max_age)
           = fallback (case five_min of None \<Rightarrow> None | Some f \<Rightarrow> f iid) (oh iid)"
    by (intro hybrid_stale) simp
  moreover have "fallback (case five_min of None \<Rightarrow> None | Some f \<Rightarrow> f iid) (oh iid) = from_1h (oh iid)"
    using a by (simp add: fallback_def truthy_def split: option.splits)
  moreover have "from_1h (oh iid) = None"
    using a by (simp add: from_1h_def truthy_def split: option.splits)
  ultimately show "fst (choose_prices_for_item clk n iid lat oh five_min ''hybrid'' max_age) = None"
    by simp
qed

lemma e2e_ages:
  "\<not> fdiv (float_of_int 10000) 60 \<le> 20" "fdiv (float_of_int 21) 60 \<le> fl (35 / 100)"
  "fdiv (float_of_int 0) 60 \<le> 20" "\<not> (21 / 60 :: real) \<le> fl (35 / 100)"
  by code_simp+

lemma e2e_latest_stale:
  "\<not> (\<exists>t h l. e2e_latest 1699990000 1 = Some t \<and> dict_get t ''highTime'' = Some h
        \<and> dict_get t ''lowTime'' = Some l
        \<and> fdiv (float_of_int ((\<lambda>_. 1700000000) (0::nat) - h)) 60 \<le> (20::real)
        \<and> fdiv (float_of_int ((\<lambda>_. 1700000000) (0::nat) - l)) 60 \<le> (20::real))"
  using e2e_ages(1) by (auto simp add: e2e_latest_def dict_get_def)

theorem C9_hybrid_selection_witness:
  "fst (choose_prices_for_item (\<lambda>_. 1700000000) 0 1 (e2e_latest 1700000000) e2e_one_hour (Some e2e_five_min) ''hybrid'' 20)
     = Some (100, 120, 1000, 1000)
   \<and> fst (choose_prices_for_item (\<lambda>_. 1700000000) 0 1 (e2e_latest 1699999979) e2e_one_hour None ''hybrid'' (fl 0.35))
     = Some (100, 120, 1000, 1000)
   \<and> fst (choose_prices_for_item (\<lambda>_. 1700000000) 0 1 (e2e_latest 1699990000) e2e_windowed (Some e2e_five_min) ''hybrid'' 20)
     = Some (103, 118, 1000, 1000)
   \<and> fst (choose_prices_for_item (\<lambda>_. 1700000000) 0 1 (e2e_latest 1699990000) e2e_windowed None ''hybrid'' 20)
     = Some (100, 120, 1000, 1000)
   \<and> fst (choose_prices_for_item (\<lambda>_. 1700000000) 0 1 (e2e_latest 1699990000) Map.empty None ''hybrid'' 20)
     = None"
proof -
  have fresh: "fst (choose_prices_for_item (\<lambda>_. 1700000000) 0 1 (e2e_latest 1700000000) e2e_one_hour (Some e2e_five_min) ''hybrid'' 20)
     = Some (100, 120, 1000, 1000)"
    using e2e_ages(3) C9_hybrid_selection[where lat = "e2e_latest 1700000000" and iid = 1 and clk = "\<lambda>_. 1700000000"
        and n = 0 and max_age = 20 and oh = e2e_one_hour and h = 1700000000 and l = 1700000000
        and five_min = "Some e2e_five_min"
        and t = "[(''high'', Some 120), (''highTime'', Some 1700000000), (''low'', Some 100), (''lowTime'', Some 1700000000)]"]
    by (simp add: e2e_latest_def e2e_one_hour_def dict_get_def int_or_0_def get_or_0_def)
  have aged: "fst (choose_prices_for_item (\<lambda>_. 1700000000) 0 1 (e2e_latest 1699999979) e2e_one_hour None ''hybrid'' (fl 0.35))
     = Some (100, 120, 1000, 1000)"
    using e2e_ages(2) C9_hybrid_selection[where lat = "e2e_latest 1699999979" and iid = 1 and clk = "\<lambda>_. 1700000000"
        and n = 0 and max_age = "fl 0.35" and oh = e2e_one_hour and h = 1699999979 and l = 1699999979
        and five_min = None
        and t = "[(''high'', Some 120), (''highTime'', Some 1699999979), (''low'', Some 100), (''lowTime'', Some 1699999979)]"]
    by (simp add: e2e_latest_def e2e_one_hour_def dict_get_def int_or_0_def get_or_0_def)
  have five: "fst (choose_prices_for_item (\<lambda>_. 1700000000) 0 1 (e2e_latest 1699990000) e2e_windowed (Some e2e_five_min) ''hybrid'' 20)
     = Some (103, 118, 1000, 1000)"
    using e2e_latest_stale C9_hybrid_selection[where lat = "e2e_latest 1699990000" and iid = 1 and clk = "\<lambda>_. 1700000000"
        and n = 0 and max_age = 20 and oh = e2e_windowed and five_min = "Some e2e_five_min" and f = e2e_five_min
        and r = "[(''avgHighPrice'', Some 118), (''avgLowPrice'', Some 103)]"]
    by (simp add: e2e_windowed_def e2e_five_min_def dict_get_def int_or_0_def get_or_0_def)
  have windowed: "fst (choose_prices_for_item (\<lambda>_. 1700000000) 0 1 (e2e_latest 1699990000) e2e_windowed None ''hybrid'' 20)
     = Some (100, 120, 1000, 1000)"
    using e2e_latest_stale C9_hybrid_selection[where lat = "e2e_latest 1699990000" and iid = 1 and clk = "\<lambda>_. 1700000000"
        and n = 0 and max_age = 20 and oh = e2e_windowed and five_min = None
        and w = "[(''avgHighPrice'', Some 120), (''avgLowPrice'', Some 100),
                  (''highPriceVolume'', Some 1000), (''lowPriceVolume'', Some 1000)]"]
    by (simp add: e2e_windowed_def dict_get_def int_or_0_def get_or_0_def truthy_def)
  have none: "fst (choose_prices_for_item (\<lambda>_. 1700000000) 0 1 (e2e_latest 1699990000) Map.empty None ''hybrid'' 20)
     = None"
    using e2e_latest_stale C9_hybrid_selection[where lat = "e2e_latest 1699990000" and iid = 1 and clk = "\<lambda>_. 1700000000"
        and n = 0 and max_age = 20 and oh = Map.empty and five_min = None]
    by (simp add: truthy_def)
  show ?thesis using fresh aged five windowed none by simp
qed

theorem C9_five_minute_counterexample:
  "\<not> (\<exists>t h l. e2e_latest 1699990000 1 = Some t \<and> dict_get t ''highTime'' = Some h
        \<and> dict_get t ''lowTime'' = Some l
        \<and> fdiv (float_of_int (1700000000 - h)) 60 \<le> (20::real)
        \<and> fdiv (float_of_int (1700000000 - l)) 60 \<le> (20::real))
   \<and> e2e_windowed 1 = Some [(''avgHighPrice'', Some 120), (''avgLowPrice'', Some 100),
                             (''highPriceVolume'', Some 1000), (''lowPriceVolume'', Some 1000)]
   \<and> choose_prices_for_item (\<lambda>_. 1700000000) 0 1 (e2e_latest 1699990000) e2e_windowed (Some e2e_five_min) ''hybrid'' 20
       = (Some (103, 118, 1000, 1000), 1)"
proof -
  have "choose_prices_for_item (\<lambda>_. 1700000000) 0 1 (e2e_latest 1699990000) e2e_windowed (Some e2e_five_min) ''hybrid'' 20
       = (Some (103, 118, 1000, 1000), 1)"
    using e2e_ages(1)
    by (simp add: choose_prices_for_item_def fallback_def e2e_latest_def e2e_windowed_def e2e_five_min_def
          dict_get_def int_or_0_def get_or_0_def Let_def)
  then show ?thesis using e2e_latest_stale by (simp add: e2e_windowed_def)
qed

section \<open>The freshness filter\<close>

lemma is_fresh_enough_without_timestamps:
  assumes "0 < fresh"
    and "e = None \<or> e = Some [] \<or> (\<exists>t. e = Some t \<and> dict_get t ''highTime'' = None \<and> dict_get t ''lowTime'' = None)"
  shows "fst (is_fresh_enough clk k e fresh policy) = False"
  using assms
  by (auto simp add: is_fresh_enough_def Let_def split: option.splits)

lemma loop_body_Some_fresh:
  assumes "loop_body clk k five_min a iid = (Some s, k')"
  shows "fst (is_fresh_enough clk k (latest a iid) (fresh_minutes a) (fresh_policy a))"
  using assms
  by (auto simp add: loop_body_def split: prod.splits if_splits option.splits)

lemma loop_body_item_id:
  assumes "loop_body clk k five_min a iid = (Some s, k')"
  shows "item_id s = iid"
proof -
  from loop_body_Some[OF assms] obtain chosen where "evaluate_item a iid chosen = Some s" by auto
  from evaluate_item_invariants[OF this] show ?thesis by simp
qed

text \<open>
  C10. With the freshness filter on (\<open>fresh_minutes > 0\<close>), an item with no record in the
  latest feed, or whose record carries neither timestamp, is in no suggestion of the
  output, whatever the price source; the "1h" policy, which takes its prices from the
  windowed feed alone, is no exception.
\<close>

theorem C10_freshness_excludes_untimed_items:
  assumes "0 < fresh_minutes a"
    and "latest a iid = None \<or> latest a iid = Some []
         \<or> (\<exists>t. latest a iid = Some t \<and> dict_get t ''highTime'' = None \<and> dict_get t ''lowTime'' = None)"
  shows "iid \<notin> item_id ` set (fst (build_suggestions clk n five_min order a))"
proof
  assume "iid \<in> item_id ` set (fst (build_suggestions clk n five_min order a))"
  then obtain s where s: "s \<in> set (fst (build_suggestions clk n five_min order a))" "item_id s = iid"
    by auto
  from build_suggestions_members[OF s(1)] obtain j k k' where
    lb: "loop_body clk k five_min a j = (Some s, k')" by auto
  from loop_body_item_id[OF lb] s(2) have "j = iid" by simp
  with loop_body_Some_fresh[OF lb]
  have "fst (is_fresh_enough clk k (latest a iid) (fresh_minutes a) (fresh_policy a))" by simp
  with is_fresh_enough_without_timestamps[OF assms, of clk k "fresh_policy a"]
  show False by simp
qed

lemma windowed_only_unfiltered:
  "map item_id (fst (build_suggestions (\<lambda>_. 1700000000) 0 None [1] (windowed_only_args 0))) = [1]"
proof -
  let ?a = "windowed_only_args 0"
  have sel: "latest ?a = Map.empty" "fresh_minutes ?a = 0" "fresh_policy ?a = ''both''"
    "price_source ?a = ''1h''" "latest_max_age_min ?a = 20" "include_item_ids ?a = None" "top_n ?a = 10"
    "min_hourly_volume ?a = 0" "aggressiveness ?a = 0" "min_unit_profit_gp ?a = 0" "min_unit_roi ?a = 0"
    "one_hour ?a = [1 \<mapsto> [(''avgHighPrice'', Some 120), (''avgLowPrice'', Some 100),
                            (''highPriceVolume'', Some 1000), (''lowPriceVolume'', Some 1000)]]"
    by (simp_all add: windowed_only_args_def e2e_args_def)
  have ch: "choose_prices_for_item (\<lambda>_. 1700000000) 0 1 Map.empty (one_hour ?a) None ''1h'' 20
              = (Some (100, 120, 1000, 1000), 0)"
    by (simp add: sel choose_prices_for_item_def from_1h_def from_latest_def fallback_def dict_get_def int_or_0_def Let_def)
  have dq: "derive_quantity ?a 1 100 1000 1000 = Some 50"
    by (simp add: derive_quantity_def windowed_only_args_def e2e_args_def item_buy_limit_def
          item_rem_def py_int_def Let_def fmul_def float_of_int_exact fl_numeral)
  have adj: "adjust_prices_for_aggressiveness 100 120 0 = (100, 120)"
    by (simp add: adjust_prices_for_aggressiveness_def py_int_def Let_def fmul_def)
  obtain s where mk: "make_suggestion ?a 1 100 120 1000 1000 50 = Some s" and qs: "item_id s = 1"
    using e2e_floats(6) by (simp add: make_suggestion_def e2e_tax Let_def sel e2e_floats(1))
  have ev: "evaluate_item ?a 1 (100, 120, 1000, 1000) = Some s"
    by (simp add: evaluate_item_def sel(8,9) adj dq mk)
  have fr: "is_fresh_enough (\<lambda>_. 1700000000) 0 (latest ?a 1) (fresh_minutes ?a) (fresh_policy ?a) = (True, 0)"
    by (simp add: sel(1,2) is_fresh_enough_def)
  have body: "loop_body (\<lambda>_. 1700000000) 0 None ?a 1 = (Some s, 0)"
    unfolding loop_body_def fr using ch ev by (simp add: sel(1,4,5))
  have "fst (build_suggestions (\<lambda>_. 1700000000) 0 None [1] ?a) = [s]"
    by (simp add: build_suggestions_def universe_of_def sel(6,7) body sort_reverse_def)
  then show ?thesis using qs by simp
qed

theorem C10_freshness_excludes_untimed_items_witness:
  "0 < fresh_minutes (windowed_only_args 10) \<and> latest (windowed_only_args 10) 1 = None
   \<and> price_source (windowed_only_args 10) = ''1h''
   \<and> 1 \<notin> item_id ` set (fst (build_suggestions (\<lambda>_. 1700000000) 0 None [1] (windowed_only_args 10)))
   \<and> map item_id (fst (build_suggestions (\<lambda>_. 1700000000) 0 None [1] (windowed_only_args 0))) = [1]"
proof -
  have h: "0 < fresh_minutes (windowed_only_args 10)" "latest (windowed_only_args 10) 1 = None"
    "price_source (windowed_only_args 10) = ''1h''"
    by (simp_all add: windowed_only_args_def e2e_args_def)
  from C10_freshness_excludes_untimed_items[of "windowed_only_args 10" 1 "\<lambda>_. 1700000000" 0 None "[1]"] h
  have "1 \<notin> item_id ` set (fst (build_suggestions (\<lambda>_. 1700000000) 0 None [1] (windowed_only_args 10)))"
    by simp
  then show ?thesis using h windowed_only_unfiltered by simp
qed


section \<open>How the engine depends on the clock\<close>

lemma is_fresh_enough_reads:
  "n \<le> snd (is_fresh_enough clk n e f p) \<and> snd (is_fresh_enough clk n e f p) \<le> Suc n"
  by (simp add: is_fresh_enough_def Let_def split: option.splits)

lemma is_fresh_enough_agree:
  assumes "snd (is_fresh_enough clk n e f p) = n \<or> clk n = clk' m"
  shows "fst (is_fresh_enough clk n e f p) = fst (is_fresh_enough clk' m e f p)"
    and "snd (is_fresh_enough clk n e f p) + m = snd (is_fresh_enough clk' m e f p) + n"
  using assms
  by (auto simp add: is_fresh_enough_def Let_def split: option.splits if_splits)


lemma choose_prices_snd:
  "snd (choose_prices_for_item clk n iid lat oh fm src age) =
     (if src \<noteq> ''1h'' \<and> src \<noteq> ''latest''
         \<and> (\<exists>t h l. lat iid = Some t \<and> t \<noteq> [] \<and> dict_get t ''highTime'' = Some h
                     \<and> dict_get t ''lowTime'' = Some l)
      then Suc n else n)"
  by (simp add: choose_prices_for_item_def Let_def split: option.splits)

lemma choose_prices_fst_same_sample:
  assumes "clk n = clk' m"
  shows "fst (choose_prices_for_item clk n iid lat oh fm src age)
           = fst (choose_prices_for_item clk' m iid lat oh fm src age)"
  using assms
  by (simp add: choose_prices_for_item_def Let_def split: option.splits)

lemma choose_prices_fst_no_read:
  assumes "snd (choose_prices_for_item clk n iid lat oh fm src age) = n"
  shows "fst (choose_prices_for_item clk n iid lat oh fm src age)
           = fst (choose_prices_for_item clk' m iid lat oh fm src age)"
proof -
  from assms have nr: "\<not> (src \<noteq> ''1h'' \<and> src \<noteq> ''latest''
         \<and> (\<exists>t h l. lat iid = Some t \<and> t \<noteq> [] \<and> dict_get t ''highTime'' = Some h
                     \<and> dict_get t ''lowTime'' = Some l))"
    by (simp add: choose_prices_snd split: if_splits)
  show ?thesis
  proof (cases "src = ''1h'' \<or> src = ''latest''")
    case True
    then show ?thesis
      by (auto simp add: choose_prices_for_item_def Let_def split: option.splits)
  next
    case False
    with nr have "\<forall>t. lat iid = Some t \<longrightarrow> t = [] \<or> dict_get t ''highTime'' = None \<or> dict_get t ''lowTime'' = None"
      by auto
    with False show ?thesis
      by (cases "lat iid") (auto simp add: choose_prices_for_item_def Let_def split: option.splits)
  qed
qed

lemma choose_prices_agree:
  assumes "snd (choose_prices_for_item clk n iid lat oh fm src age) = n \<or> clk n = clk' m"
  shows "fst (choose_prices_for_item clk n iid lat oh fm src age)
           = fst (choose_prices_for_item clk' m iid lat oh fm src age)"
    and "snd (choose_prices_for_item clk n iid lat oh fm src age) + m
           = snd (choose_prices_for_item clk' m iid lat oh fm src age) + n"
proof -
  show "fst (choose_prices_for_item clk n iid lat oh fm src age)
           = fst (choose_prices_for_item clk' m iid lat oh fm src age)"
  proof (cases "clk n = clk' m")
    case True
    then show ?thesis by (rule choose_prices_fst_same_sample)
  next
    case False
    with assms have "snd (choose_prices_for_item clk n iid lat oh fm src age) = n" by simp
    then show ?thesis by (rule choose_prices_fst_no_read)
  qed
  show "snd (choose_prices_for_item clk n iid lat oh fm src age) + m
           = snd (choose_prices_for_item clk' m iid lat oh fm src age) + n"
    by (simp add: choose_prices_snd)
qed

lemma choose_prices_reads:
  "n \<le> snd (choose_prices_for_item clk n iid lat oh fm src age)
   \<and> snd (choose_prices_for_item clk n iid lat oh fm src age) \<le> Suc n"
  by (simp add: choose_prices_snd)

lemma loop_body_alt:
  "loop_body clk n fm a iid =
     (if \<not> fst (is_fresh_enough clk n (latest a iid) (fresh_minutes a) (fresh_policy a))
      then (None, snd (is_fresh_enough clk n (latest a iid) (fresh_minutes a) (fresh_policy a)))
      else
        (case fst (choose_prices_for_item clk
                     (snd (is_fresh_enough clk n (latest a iid) (fresh_minutes a) (fresh_policy a)))
                     iid (latest a) (one_hour a) fm (price_source a) (latest_max_age_min a)) of
           None \<Rightarrow> None
         | Some chosen \<Rightarrow> evaluate_item a iid chosen,
         snd (choose_prices_for_item clk
                (snd (is_fresh_enough clk n (latest a iid) (fresh_minutes a) (fresh_policy a)))
                iid (latest a) (one_hour a) fm (price_source a) (latest_max_age_min a))))"
  by (simp add: loop_body_def split: prod.splits option.splits)

lemma loop_body_reads:
  "n \<le> snd (loop_body clk n fm a iid) \<and> snd (loop_body clk n fm a iid) \<le> n + 2"
proof -
  let ?r = "is_fresh_enough clk n (latest a iid) (fresh_minutes a) (fresh_policy a)"
  let ?c = "choose_prices_for_item clk (snd ?r) iid (latest a) (one_hour a) fm (price_source a) (latest_max_age_min a)"
  have r: "n \<le> snd ?r \<and> snd ?r \<le> Suc n" by (rule is_fresh_enough_reads)
  have c: "snd ?r \<le> snd ?c \<and> snd ?c \<le> Suc (snd ?r)" by (rule choose_prices_reads)
  show ?thesis
  proof (cases "fst ?r")
    case True
    then have "snd (loop_body clk n fm a iid) = snd ?c" by (simp add: loop_body_alt)
    then show ?thesis using r c by linarith
  next
    case False
    then have "snd (loop_body clk n fm a iid) = snd ?r" by (simp add: loop_body_alt)
    then show ?thesis using r by linarith
  qed
qed

lemma loop_body_frozen:
  assumes "\<forall>k. n \<le> k \<and> k < snd (loop_body clk n fm a iid) \<longrightarrow> clk k = now"
  shows "fst (loop_body clk n fm a iid) = fst (loop_body (\<lambda>_. now) m fm a iid)
         \<and> snd (loop_body clk n fm a iid) + m = snd (loop_body (\<lambda>_. now) m fm a iid) + n"
proof -
  let ?r = "is_fresh_enough clk n (latest a iid) (fresh_minutes a) (fresh_policy a)"
  let ?r' = "is_fresh_enough (\<lambda>_. now) m (latest a iid) (fresh_minutes a) (fresh_policy a)"
  let ?c = "choose_prices_for_item clk (snd ?r) iid (latest a) (one_hour a) fm (price_source a) (latest_max_age_min a)"
  let ?c' = "choose_prices_for_item (\<lambda>_. now) (snd ?r') iid (latest a) (one_hour a) fm (price_source a) (latest_max_age_min a)"
  have rb: "n \<le> snd ?r \<and> snd ?r \<le> Suc n" by (rule is_fresh_enough_reads)
  have cb: "snd ?r \<le> snd ?c \<and> snd ?c \<le> Suc (snd ?r)" by (rule choose_prices_reads)
  have le: "snd ?r \<le> snd (loop_body clk n fm a iid)"
    using cb by (simp add: loop_body_alt)
  have "snd ?r = n \<or> clk n = (\<lambda>_. now) m"
  proof (cases "snd ?r = n")
    case False
    then have "n < snd (loop_body clk n fm a iid)" using rb le by linarith
    with assms show ?thesis by simp
  qed simp
  from is_fresh_enough_agree[OF this]
  have ra: "fst ?r = fst ?r'" "snd ?r + m = snd ?r' + n" by simp_all
  show ?thesis
  proof (cases "fst ?r")
    case False
    then show ?thesis using ra by (simp add: loop_body_alt)
  next
    case True
    then have lb: "snd (loop_body clk n fm a iid) = snd ?c" by (simp add: loop_body_alt)
    have "snd ?c = snd ?r \<or> clk (snd ?r) = (\<lambda>_. now) (snd ?r')"
    proof (cases "snd ?c = snd ?r")
      case False
      then have "n \<le> snd ?r \<and> snd ?r < snd (loop_body clk n fm a iid)" using rb cb lb by linarith
      with assms show ?thesis by simp
    qed simp
    from choose_prices_agree[OF this]
    have ca: "fst ?c = fst ?c'" "snd ?c + snd ?r' = snd ?c' + snd ?r" by simp_all
    have "snd ?c + m = snd ?c' + n" using ca(2) ra(2) by linarith
    then show ?thesis using True ra(1) ca(1) by (simp add: loop_body_alt)
  qed
qed

lemma run_loop_reads:
  "n \<le> snd (run_loop clk n fm a us acc) \<and> snd (run_loop clk n fm a us acc) \<le> n + 2 * length us"
proof (induction us arbitrary: n acc)
  case Nil
  show ?case by simp
next
  case (Cons iid us)
  obtain r n' where lb: "loop_body clk n fm a iid = (r, n')"
    by (cases "loop_body clk n fm a iid") auto
  from loop_body_reads[of n clk fm a iid] lb have b: "n \<le> n' \<and> n' \<le> n + 2" by simp
  show ?case
  proof (cases r)
    case None
    with lb have "run_loop clk n fm a (iid # us) acc = run_loop clk n' fm a us acc" by simp
    with Cons.IH[of n' acc] b show ?thesis by simp
  next
    case (Some s)
    with lb have "run_loop clk n fm a (iid # us) acc = run_loop clk n' fm a us (acc @ [s])" by simp
    with Cons.IH[of n' "acc @ [s]"] b show ?thesis by simp
  qed
qed

lemma run_loop_frozen:
  assumes "\<forall>k. n \<le> k \<and> k < snd (run_loop clk n fm a us acc) \<longrightarrow> clk k = now"
  shows "fst (run_loop clk n fm a us acc) = fst (run_loop (\<lambda>_. now) m fm a us acc)
         \<and> snd (run_loop clk n fm a us acc) + m = snd (run_loop (\<lambda>_. now) m fm a us acc) + n"
  using assms
proof (induction us arbitrary: n m acc)
  case Nil
  show ?case by simp
next
  case (Cons iid us)
  obtain r n' where lb: "loop_body clk n fm a iid = (r, n')"
    by (cases "loop_body clk n fm a iid") auto
  obtain r' m' where lb': "loop_body (\<lambda>_. now) m fm a iid = (r', m')"
    by (cases "loop_body (\<lambda>_. now) m fm a iid") auto
  define acc' where "acc' = (case r of None \<Rightarrow> acc | Some s \<Rightarrow> acc @ [s])"
  have step: "run_loop clk n fm a (iid # us) acc = run_loop clk n' fm a us acc'"
    using lb by (simp add: acc'_def split: option.splits)
  from loop_body_reads[of n clk fm a iid] lb have b: "n \<le> n'" by simp
  from run_loop_reads[of n' clk fm a us acc'] have b2: "n' \<le> snd (run_loop clk n' fm a us acc')" by simp
  have "\<forall>k. n \<le> k \<and> k < snd (loop_body clk n fm a iid) \<longrightarrow> clk k = now"
    using Cons.prems step lb b2 by auto
  from loop_body_frozen[OF this, of m] lb lb'
  have eq: "r = r'" "n' + m = m' + n" by simp_all
  have step': "run_loop (\<lambda>_. now) m fm a (iid # us) acc = run_loop (\<lambda>_. now) m' fm a us acc'"
    using lb' eq(1) by (simp add: acc'_def split: option.splits)
  have "\<forall>k. n' \<le> k \<and> k < snd (run_loop clk n' fm a us acc') \<longrightarrow> clk k = now"
    using Cons.prems step b by auto
  from Cons.IH[OF this, of m']
  have "fst (run_loop clk n' fm a us acc') = fst (run_loop (\<lambda>_. now) m' fm a us acc')"
    "snd (run_loop clk n' fm a us acc') + m' = snd (run_loop (\<lambda>_. now) m' fm a us acc') + n'"
    by simp_all
  then show ?case using step step' eq(2) by simp
qed

lemma tie_evaluated:
  assumes "iid = 1 \<or> iid = 9"
  shows "evaluate_item (tie_args fresh) iid (100, 120, 1000, 1000) = Some (e2e_suggestion \<lparr> item_id := iid \<rparr>)"
proof -
  let ?a = "tie_args fresh"
  have sel: "min_hourly_volume ?a = 0" "aggressiveness ?a = 0" "min_unit_profit_gp ?a = 0" "min_unit_roi ?a = 0"
    "budget_gp ?a = 10000" "liquidity_fraction ?a = 1" "max_fill_hours ?a = 10"
    by (simp_all add: tie_args_def e2e_args_def)
  have lim: "item_buy_limit ?a iid = Some 50" "item_rem ?a iid = None"
    "mapping ?a iid = Some \<lparr> wiki_item_id = iid, name = ''Item'', wiki_buy_limit = Some 50, members = None \<rparr>"
    using assms by (auto simp add: item_buy_limit_def item_rem_def tie_args_def e2e_args_def)
  have dq: "derive_quantity ?a iid 100 1000 1000 = Some 50"
    by (simp add: derive_quantity_def sel lim py_int_def Let_def fmul_def float_of_int_exact fl_numeral)
  have adj: "adjust_prices_for_aggressiveness 100 120 0 = (100, 120)"
    by (simp add: adjust_prices_for_aggressiveness_def py_int_def Let_def fmul_def)
  have mk: "make_suggestion ?a iid 100 120 1000 1000 50 = Some (e2e_suggestion \<lparr> item_id := iid \<rparr>)"
  proof -
    have roi: "\<not> fl (9 / 50) < 0" using e2e_floats(6) by simp
    show ?thesis
      by (simp add: make_suggestion_def e2e_tax Let_def sel lim e2e_suggestion_def e2e_floats(1-5) roi)
  qed
  show ?thesis
    by (simp add: evaluate_item_def sel adj dq mk)
qed

lemma tie_chosen:
  assumes "iid = 1 \<or> iid = 9"
  shows "choose_prices_for_item clk k iid (latest (tie_args fresh)) (one_hour (tie_args fresh)) None
           (price_source (tie_args fresh)) (latest_max_age_min (tie_args fresh))
         = (Some (100, 120, 1000, 1000), k)"
  using assms
  by (auto simp add: tie_args_def e2e_args_def choose_prices_for_item_def from_latest_def e2e_latest_def
        e2e_one_hour_def dict_get_def int_or_0_def get_or_0_def Let_def)

lemma tie_fresh:
  assumes "iid = 1 \<or> iid = 9" "0 < fresh"
  shows "is_fresh_enough clk k (latest (tie_args fresh) iid) (fresh_minutes (tie_args fresh))
           (fresh_policy (tie_args fresh))
         = (of_int (clk k - 1700000000) \<le> fmul fresh (float_of_int 60), Suc k)"
  using assms
  by (auto simp add: tie_args_def e2e_args_def is_fresh_enough_def e2e_latest_def dict_get_def Let_def)

lemma tie_loop_body:
  assumes "iid = 1 \<or> iid = 9" "0 < fresh"
  shows "loop_body clk k None (tie_args fresh) iid =
           (if of_int (clk k - 1700000000) \<le> fmul fresh (float_of_int 60)
            then Some (e2e_suggestion \<lparr> item_id := iid \<rparr>) else None, Suc k)"
  unfolding loop_body_def tie_fresh[OF assms] tie_chosen[OF assms(1)]
  by (simp add: tie_evaluated[OF assms(1)])

text \<open>
  C4 (amended). One invocation reads the clock anew in the freshness check and in the
  hybrid age check of each item, so up to twice per item of the universe and not once
  per pass. The output depends on the clock only through
  those samples: when every sample read during the pass equals \<open>now\<close>, the output is the
  output under a clock held constant at \<open>now\<close>, whatever the number of earlier reads; so
  two invocations with identical inputs whose samples all equal the same \<open>now\<close> return
  identical output.
\<close>

theorem C4_output_depends_on_samples_read:
  assumes "\<forall>k. n \<le> k \<and> k < snd (build_suggestions clk n five_min order a) \<longrightarrow> clk k = now"
  shows "fst (build_suggestions clk n five_min order a) = fst (build_suggestions (\<lambda>_. now) m five_min order a)
         \<and> n \<le> snd (build_suggestions clk n five_min order a)
         \<and> snd (build_suggestions clk n five_min order a) \<le> n + 2 * length order"
proof -
  let ?u = "universe_of a order"
  have s: "snd (build_suggestions clk n five_min order a) = snd (run_loop clk n five_min a ?u [])"
    by (simp add: build_suggestions_def split: prod.splits)
  have f: "fst (build_suggestions c j five_min order a)
             = take (nat (max 1 (top_n a))) (sort_reverse (fst (run_loop c j five_min a ?u [])))" for c j
    by (simp add: build_suggestions_def split: prod.splits)
  from assms s have "\<forall>k. n \<le> k \<and> k < snd (run_loop clk n five_min a ?u []) \<longrightarrow> clk k = now" by simp
  from run_loop_frozen[OF this, of m]
  have "fst (run_loop clk n five_min a ?u []) = fst (run_loop (\<lambda>_. now) m five_min a ?u [])" by simp
  then have eq: "fst (build_suggestions clk n five_min order a) = fst (build_suggestions (\<lambda>_. now) m five_min order a)"
    by (simp only: f)
  have "length ?u \<le> length order" by (simp add: universe_of_def split: option.splits)
  with run_loop_reads[of n clk five_min a ?u "[]"] s
  have "n \<le> snd (build_suggestions clk n five_min order a)
         \<and> snd (build_suggestions clk n five_min order a) \<le> n + 2 * length order" by simp
  with eq show ?thesis by simp
qed

lemma tie_build:
  assumes "0 < fresh" "i = 1 \<or> i = 9" "j = 1 \<or> j = 9"
  shows "build_suggestions clk k None [i, j] (tie_args fresh) =
           (take 10 (sort_reverse
              ((if of_int (clk k - 1700000000) \<le> fmul fresh (float_of_int 60)
                then [e2e_suggestion \<lparr> item_id := i \<rparr>] else [])
               @ (if of_int (clk (Suc k) - 1700000000) \<le> fmul fresh (float_of_int 60)
                  then [e2e_suggestion \<lparr> item_id := j \<rparr>] else []))),
            Suc (Suc k))"
proof -
  have sel: "include_item_ids (tie_args fresh) = None" "top_n (tie_args fresh) = 10"
    by (simp_all add: tie_args_def e2e_args_def)
  show ?thesis
    by (simp add: build_suggestions_def universe_of_def sel tie_loop_body[OF assms(2,1)]
          tie_loop_body[OF assms(3,1)])
qed

theorem C4_output_depends_on_samples_read_witness:
  "snd (build_suggestions (\<lambda>k. if k < 2 then 1700000000 else 0) 0 None [1, 9] (tie_args 10)) = 2
   \<and> fst (build_suggestions (\<lambda>k. if k < 2 then 1700000000 else 0) 0 None [1, 9] (tie_args 10))
       = fst (build_suggestions (\<lambda>_. 1700000000) 7 None [1, 9] (tie_args 10))"
proof -
  let ?clk = "\<lambda>k::nat. if k < 2 then (1700000000::int) else 0"
  have r: "snd (build_suggestions ?clk 0 None [1, 9] (tie_args 10)) = 2"
    by (simp add: tie_build)
  then have "\<forall>k. 0 \<le> k \<and> k < snd (build_suggestions ?clk 0 None [1, 9] (tie_args 10)) \<longrightarrow> ?clk k = 1700000000"
    by simp
  from C4_output_depends_on_samples_read[OF this, of 7] r show ?thesis by simp
qed

theorem C4_resampled_clock_counterexample:
  "snd (build_suggestions ticking 0 None [1, 9] (tie_args 1)) = 2
   \<and> map item_id (fst (build_suggestions ticking 0 None [1, 9] (tie_args 1))) = [1]
   \<and> map item_id (fst (build_suggestions (\<lambda>_. ticking 0) 0 None [1, 9] (tie_args 1))) = [1, 9]
   \<and> map item_id (fst (build_suggestions (\<lambda>_. ticking 1) 0 None [1, 9] (tie_args 1))) = []"
  by (simp add: tie_build ticking_def sort_reverse_def rank_key_def e2e_suggestion_def
        fmul_def float_of_int_exact fl_numeral fl_one)


section \<open>Ranking\<close>

lemma sorted_insort_desc:
  assumes "sorted_wrt (\<lambda>x y. rank_key y \<le> rank_key x) ys"
  shows "sorted_wrt (\<lambda>x y. rank_key y \<le> rank_key x) (insort_desc x ys)"
  using assms
proof (induction ys)
  case Nil
  show ?case by simp
next
  case (Cons y ys)
  show ?case
  proof (cases "rank_key y \<le> rank_key x")
    case True
    with Cons.prems show ?thesis by auto
  next
    case False
    then have "rank_key x \<le> rank_key y" by simp
    with False Cons show ?thesis by (auto simp add: set_insort_desc)
  qed
qed

lemma sorted_sort_reverse: "sorted_wrt (\<lambda>x y. rank_key y \<le> rank_key x) (sort_reverse xs)"
  by (induction xs) (simp_all add: sort_reverse_def sorted_insort_desc)

lemma mset_insort_desc: "mset (insort_desc x ys) = add_mset x (mset ys)"
  by (induction ys) simp_all

lemma mset_sort_reverse: "mset (sort_reverse xs) = mset xs"
  by (induction xs) (simp_all add: sort_reverse_def mset_insort_desc)

lemma descending_unique:
  assumes "sorted_wrt (\<lambda>x y. rank_key y \<le> rank_key x) xs"
    and "sorted_wrt (\<lambda>x y. rank_key y \<le> rank_key x) ys"
    and "mset xs = mset ys" and "distinct (map rank_key xs)"
  shows "xs = ys"
proof -
  have dy: "distinct (map rank_key ys)"
    using assms(3,4) by (metis mset_map mset_eq_imp_distinct_iff)
  have st: "set xs = set ys" using assms(3) by (rule mset_eq_setD)
  have inj: "inj_on rank_key (set (rev xs) \<union> set (rev ys))"
    using assms(4) st by (simp add: distinct_map)
  have sx: "sorted (map rank_key (rev xs))"
    using assms(1) by (simp add: sorted_wrt_rev sorted_wrt_map rev_map[symmetric])
  have sy: "sorted (map rank_key (rev ys))"
    using assms(2) by (simp add: sorted_wrt_rev sorted_wrt_map rev_map[symmetric])
  have dx': "distinct (map rank_key (rev xs))" using assms(4) by (simp add: distinct_map)
  have dy': "distinct (map rank_key (rev ys))" using dy by (simp add: distinct_map)
  have st': "set (rev xs) = set (rev ys)" using st by simp
  have "rev xs = rev ys"
    by (rule map_sorted_distinct_set_unique[OF inj sx dx' sy dy' st'])
  then show ?thesis by simp
qed

lemma sort_reverse_reordered:
  assumes "mset xs = mset ys" "distinct (map rank_key xs)"
  shows "sort_reverse xs = sort_reverse ys"
proof (rule descending_unique)
  show "mset (sort_reverse xs) = mset (sort_reverse ys)" using assms(1) by (simp add: mset_sort_reverse)
  show "distinct (map rank_key (sort_reverse xs))"
    using assms(2) mset_sort_reverse[of xs] by (metis mset_map mset_eq_imp_distinct_iff)
qed (rule sorted_sort_reverse)+

lemma filter_insort_desc:
  assumes "sorted_wrt (\<lambda>x y. rank_key y \<le> rank_key x) ys"
  shows "filter (\<lambda>s. rank_key s = k) (insort_desc x ys)
           = (if rank_key x = k then x # filter (\<lambda>s. rank_key s = k) ys
              else filter (\<lambda>s. rank_key s = k) ys)"
  using assms
proof (induction ys)
  case Nil
  show ?case by simp
next
  case (Cons y ys)
  show ?case
  proof (cases "rank_key y \<le> rank_key x")
    case True
    then show ?thesis by simp
  next
    case False
    then have "rank_key x \<noteq> rank_key y" by auto
    with False Cons show ?thesis by auto
  qed
qed

lemma sort_reverse_stable:
  "filter (\<lambda>s. rank_key s = k) (sort_reverse xs) = filter (\<lambda>s. rank_key s = k) xs"
proof (induction xs)
  case Nil
  show ?case by (simp add: sort_reverse_def)
next
  case (Cons x xs)
  have "sort_reverse (x # xs) = insort_desc x (sort_reverse xs)" by (simp add: sort_reverse_def)
  with Cons filter_insort_desc[OF sorted_sort_reverse, of k x xs] show ?case by simp
qed

lemma loop_body_constant_clock:
  "fst (loop_body (\<lambda>_. now) m fm a iid) = fst (loop_body (\<lambda>_. now) 0 fm a iid)"
  using loop_body_frozen[of m "\<lambda>_. now" fm a iid now 0] by simp

lemma run_loop_constant_clock:
  "fst (run_loop (\<lambda>_. now) m fm a us acc)
     = acc @ List.map_filter (\<lambda>iid. fst (loop_body (\<lambda>_. now) 0 fm a iid)) us"
proof (induction us arbitrary: m acc)
  case Nil
  show ?case by simp
next
  case (Cons iid us)
  obtain r m' where lb: "loop_body (\<lambda>_. now) m fm a iid = (r, m')"
    by (cases "loop_body (\<lambda>_. now) m fm a iid") auto
  with loop_body_constant_clock[of now m fm a iid]
  have r: "fst (loop_body (\<lambda>_. now) 0 fm a iid) = r" by simp
  show ?case
    using lb r Cons.IH by (cases r) simp_all
qed

lemma mset_map_filter:
  assumes "mset us = mset vs"
  shows "mset (List.map_filter g us) = mset (List.map_filter g vs)"
proof -
  have "mset (List.map_filter g xs) = image_mset (the \<circ> g) (filter_mset (\<lambda>x. g x \<noteq> None) (mset xs))" for xs
    by (simp add: List.map_filter_def)
  with assms show ?thesis by simp
qed

lemma mset_universe_of:
  assumes "mset us = mset vs"
  shows "mset (universe_of a us) = mset (universe_of a vs)"
  using assms by (simp add: universe_of_def split: option.splits)

text \<open>
  C3 (amended). The output is sorted in descending lexicographic order of
  (profit per hour, total profit, unit ROI) and has at most \<open>max(1, top_n)\<close> elements:
  it is the first \<open>max(1, top_n)\<close> elements of the ranked candidates, among which those
  that tie on all three keys keep the order of iteration. The output is the same for
  every order of iteration over the items when no two candidates tie on all three keys
  (the clock holding one value during the pass). The keys are the values the suggestions
  store: profit per hour and ROI are doubles, so two candidates tie when their rounded
  keys are equal.
\<close>

theorem C3_ranking_and_reordering:
  "sorted_wrt (\<lambda>x y. rank_key y \<le> rank_key x) (fst (build_suggestions clk n five_min order a))
   \<and> length (fst (build_suggestions clk n five_min order a)) \<le> nat (max 1 (top_n a))
   \<and> fst (build_suggestions clk n five_min order a)
       = take (nat (max 1 (top_n a))) (sort_reverse (fst (run_loop clk n five_min a (universe_of a order) [])))
   \<and> filter (\<lambda>s. rank_key s = key) (sort_reverse (fst (run_loop clk n five_min a (universe_of a order) [])))
       = filter (\<lambda>s. rank_key s = key) (fst (run_loop clk n five_min a (universe_of a order) []))
   \<and> (mset order' = mset order
        \<and> distinct (map rank_key (fst (run_loop (\<lambda>_. now) n five_min a (universe_of a order) [])))
      \<longrightarrow> fst (build_suggestions (\<lambda>_. now) n' five_min order' a)
            = fst (build_suggestions (\<lambda>_. now) n five_min order a))"
proof (intro conjI impI)
  have f: "fst (build_suggestions c j five_min us a)
             = take (nat (max 1 (top_n a))) (sort_reverse (fst (run_loop c j five_min a (universe_of a us) [])))"
    for c j us
    by (simp add: build_suggestions_def split: prod.splits)
  show "sorted_wrt (\<lambda>x y. rank_key y \<le> rank_key x) (fst (build_suggestions clk n five_min order a))"
    unfolding f by (rule sorted_wrt_take) (rule sorted_sort_reverse)
  show "length (fst (build_suggestions clk n five_min order a)) \<le> nat (max 1 (top_n a))"
    unfolding f by simp
  show "fst (build_suggestions clk n five_min order a)
       = take (nat (max 1 (top_n a))) (sort_reverse (fst (run_loop clk n five_min a (universe_of a order) [])))"
    by (rule f)
  show "filter (\<lambda>s. rank_key s = key) (sort_reverse (fst (run_loop clk n five_min a (universe_of a order) [])))
       = filter (\<lambda>s. rank_key s = key) (fst (run_loop clk n five_min a (universe_of a order) []))"
    by (rule sort_reverse_stable)
  assume h: "mset order' = mset order
        \<and> distinct (map rank_key (fst (run_loop (\<lambda>_. now) n five_min a (universe_of a order) [])))"
  let ?g = "\<lambda>iid. fst (loop_body (\<lambda>_. now) 0 five_min a iid)"
  have r: "fst (run_loop (\<lambda>_. now) j five_min a us []) = List.map_filter ?g us" for j us
    by (simp add: run_loop_constant_clock)
  from h have "mset order = mset order'" by simp
  then have "mset (universe_of a order) = mset (universe_of a order')"
    by (rule mset_universe_of)
  then have m: "mset (List.map_filter ?g (universe_of a order)) = mset (List.map_filter ?g (universe_of a order'))"
    by (rule mset_map_filter)
  from h have d: "distinct (map rank_key (List.map_filter ?g (universe_of a order)))"
    by (simp only: r)
  have "sort_reverse (List.map_filter ?g (universe_of a order)) = sort_reverse (List.map_filter ?g (universe_of a order'))"
    using m d by (rule sort_reverse_reordered)
  then show "fst (build_suggestions (\<lambda>_. now) n' five_min order' a)
            = fst (build_suggestions (\<lambda>_. now) n five_min order a)"
    by (simp only: f r)
qed

theorem C3_tie_order_counterexample:
  "map item_id (fst (build_suggestions (\<lambda>_. 1700000000) 0 None [1, 9] (tie_args 10))) = [1, 9]
   \<and> map item_id (fst (build_suggestions (\<lambda>_. 1700000000) 0 None [9, 1] (tie_args 10))) = [9, 1]
   \<and> map rank_key (fst (build_suggestions (\<lambda>_. 1700000000) 0 None [1, 9] (tie_args 10)))
       = [(9000, 900, fl 0.18), (9000, 900, fl 0.18)]
   \<and> dom (latest (tie_args 10)) \<union> dom (one_hour (tie_args 10)) = {1, 9}"
proof -
  have "dom (latest (tie_args 10)) \<union> dom (one_hour (tie_args 10)) = {1, 9}"
    by (auto simp add: tie_args_def e2e_args_def e2e_latest_def e2e_one_hour_def dom_def split: if_splits)
  then show ?thesis
    using fresh_bound_nonneg[of 10]
    by (simp add: tie_build sort_reverse_def rank_key_def e2e_suggestion_def)
qed

lemma two_item_loop_body:
  "loop_body (\<lambda>_. 1700000000) k None two_item_args 1 = (Some e2e_suggestion, Suc k)"
  "loop_body (\<lambda>_. 1700000000) k None two_item_args 9 =
     (Some (e2e_suggestion \<lparr> item_id := 9, sell_price_gp := 130, unit_profit_gp := 28, unit_roi := fl 0.28,
                              total_profit_gp := 1400, profit_per_hour_gp := 14000 \<rparr>), Suc k)"
proof -
  let ?a = "two_item_args"
  have sel: "min_hourly_volume ?a = 0" "aggressiveness ?a = 0" "min_unit_profit_gp ?a = 0" "min_unit_roi ?a = 0"
    "budget_gp ?a = 10000" "liquidity_fraction ?a = 1" "max_fill_hours ?a = 10"
    "fresh_minutes ?a = 10" "fresh_policy ?a = ''both''" "price_source ?a = ''latest''"
    "latest_max_age_min ?a = 20"
    by (simp_all add: two_item_args_def tie_args_def e2e_args_def)
  have lim: "item_buy_limit ?a iid = Some 50" "item_rem ?a iid = None"
    "mapping ?a iid = Some \<lparr> wiki_item_id = iid, name = ''Item'', wiki_buy_limit = Some 50, members = None \<rparr>"
    if "iid = 1 \<or> iid = 9" for iid
    using that by (auto simp add: item_buy_limit_def item_rem_def two_item_args_def tie_args_def e2e_args_def)
  have lat: "latest ?a 1 = e2e_latest 1700000000 1"
    "latest ?a 9 = Some [(''high'', Some 130), (''highTime'', Some 1700000000),
                         (''low'', Some 100), (''lowTime'', Some 1700000000)]"
    by (simp_all add: two_item_args_def tie_args_def e2e_args_def)
  have oh: "one_hour ?a 1 = e2e_one_hour 1" "one_hour ?a 9 = e2e_one_hour 1"
    by (simp_all add: two_item_args_def tie_args_def e2e_args_def)
  have fr: "is_fresh_enough (\<lambda>_. 1700000000) k (latest ?a iid) 10 ''both'' = (True, Suc k)"
    if "iid = 1 \<or> iid = 9" for iid
    using that fresh_bound_nonneg[of 10]
    by (auto simp add: lat is_fresh_enough_def e2e_latest_def dict_get_def Let_def)
  have ch1: "choose_prices_for_item (\<lambda>_. 1700000000) (Suc k) 1 (latest ?a) (one_hour ?a) None ''latest'' 20
               = (Some (100, 120, 1000, 1000), Suc k)"
    by (simp add: choose_prices_for_item_def from_latest_def lat oh e2e_latest_def e2e_one_hour_def
          dict_get_def int_or_0_def get_or_0_def Let_def)
  have ch9: "choose_prices_for_item (\<lambda>_. 1700000000) (Suc k) 9 (latest ?a) (one_hour ?a) None ''latest'' 20
               = (Some (100, 130, 1000, 1000), Suc k)"
    by (simp add: choose_prices_for_item_def from_latest_def lat oh e2e_latest_def e2e_one_hour_def
          dict_get_def int_or_0_def get_or_0_def Let_def)
  have dq: "derive_quantity ?a iid 100 1000 1000 = Some 50" if "iid = 1 \<or> iid = 9" for iid
    by (simp add: derive_quantity_def sel lim[OF that] py_int_def Let_def fmul_def float_of_int_exact fl_numeral)
  have adj: "adjust_prices_for_aggressiveness 100 120 0 = (100, 120)"
    "adjust_prices_for_aggressiveness 100 130 0 = (100, 130)"
    by (simp_all add: adjust_prices_for_aggressiveness_def py_int_def Let_def fmul_def)
  have tax: "compute_tax_per_unit 130 = 2"
    by code_simp
  have fls: "int_truediv 28 100 = fl (7 / 25)" "fdiv (float_of_int 1400) (fl (1 / 10)) = 14000"
    "\<not> fl (7 / 25) < 0" "\<not> fl (9 / 50) < 0"
    by code_simp+
  have mk1: "make_suggestion ?a 1 100 120 1000 1000 50 = Some e2e_suggestion"
    by (simp add: make_suggestion_def e2e_tax Let_def sel lim e2e_suggestion_def e2e_floats(1-5) fls)
  have mk9: "make_suggestion ?a 9 100 130 1000 1000 50 =
     Some (e2e_suggestion \<lparr> item_id := 9, sell_price_gp := 130, unit_profit_gp := 28, unit_roi := fl 0.28,
                              total_profit_gp := 1400, profit_per_hour_gp := 14000 \<rparr>)"
    by (simp add: make_suggestion_def tax Let_def sel lim e2e_suggestion_def e2e_floats(1-5) fls)
  have ev1: "evaluate_item ?a 1 (100, 120, 1000, 1000) = Some e2e_suggestion"
    by (simp add: evaluate_item_def sel adj dq mk1)
  have ev9: "evaluate_item ?a 9 (100, 130, 1000, 1000) =
     Some (e2e_suggestion \<lparr> item_id := 9, sell_price_gp := 130, unit_profit_gp := 28, unit_roi := fl 0.28,
                              total_profit_gp := 1400, profit_per_hour_gp := 14000 \<rparr>)"
    by (simp add: evaluate_item_def sel adj dq mk9)
  show "loop_body (\<lambda>_. 1700000000) k None two_item_args 1 = (Some e2e_suggestion, Suc k)"
    by (simp add: loop_body_def sel fr ch1 ev1)
  show "loop_body (\<lambda>_. 1700000000) k None two_item_args 9 =
     (Some (e2e_suggestion \<lparr> item_id := 9, sell_price_gp := 130, unit_profit_gp := 28, unit_roi := fl 0.28,
                              total_profit_gp := 1400, profit_per_hour_gp := 14000 \<rparr>), Suc k)"
    by (simp add: loop_body_def sel fr ch9 ev9)
qed

theorem C3_ranking_and_reordering_witness:
  "map item_id (fst (build_suggestions (\<lambda>_. 1700000000) 0 None [1, 9] two_item_args)) = [9, 1]
   \<and> fst (build_suggestions (\<lambda>_. 1700000000) 0 None [9, 1] two_item_args)
       = fst (build_suggestions (\<lambda>_. 1700000000) 0 None [1, 9] two_item_args)"
proof -
  have sel: "include_item_ids two_item_args = None" "top_n two_item_args = 10"
    by (simp_all add: two_item_args_def tie_args_def e2e_args_def)
  have run: "fst (run_loop (\<lambda>_. 1700000000) 0 None two_item_args (universe_of two_item_args [1, 9]) [])
      = [e2e_suggestion,
         e2e_suggestion \<lparr> item_id := 9, sell_price_gp := 130, unit_profit_gp := 28, unit_roi := fl 0.28,
                              total_profit_gp := 1400, profit_per_hour_gp := 14000 \<rparr>]"
    by (simp add: universe_of_def sel two_item_loop_body)
  have d: "distinct (map rank_key (fst (run_loop (\<lambda>_. 1700000000) 0 None two_item_args
             (universe_of two_item_args [1, 9]) [])))"
    unfolding run by (simp add: rank_key_def e2e_suggestion_def)
  have m: "mset [9, 1] = mset [1, 9::int]" by simp
  have out: "map item_id (fst (build_suggestions (\<lambda>_. 1700000000) 0 None [1, 9] two_item_args)) = [9, 1]"
    by (simp add: build_suggestions_def universe_of_def sel two_item_loop_body sort_reverse_def
          rank_key_def e2e_suggestion_def)
  from C3_ranking_and_reordering[where clk = "\<lambda>_. 1700000000" and n = 0 and five_min = None
      and order = "[1, 9]" and a = two_item_args and order' = "[9, 1]" and now = 1700000000 and n' = 0]
    m d out
  show ?thesis by simp
qed


section \<open>The local-log accountant\<close>

lemma load_state_empty_log:
  assumes "\<forall>st. fs path = Some st \<longrightarrow> events st = []"
  shows "events (fst (load_state clk n fs path)) = []"
  using assms by (simp add: load_state_def Let_def split: option.splits)

lemma load_state_stored:
  assumes "path \<noteq> []" "fs path = Some st"
  shows "load_state clk n fs path =
           (\<lparr> events = filter (\<lambda>e. clk n - 2 * FOUR_HOURS_SEC \<le> ts e) (events st), version = version st \<rparr>, Suc n)"
  using assms by (simp add: load_state_def Let_def)

lemma append_event_buy:
  assumes "path \<noteq> []"
  shows "append_event clk n fs path i q ''buy'' ts_arg =
           Inr (fs(path \<mapsto> (fst (load_state clk n fs path))
                   \<lparr> events := events (fst (load_state clk n fs path))
                        @ [\<lparr> ts = (case ts_arg of Some t \<Rightarrow> t | None \<Rightarrow> clk (snd (load_state clk n fs path))),
                              event_item_id = i, event_type = ''buy'', qty = q \<rparr>] \<rparr>),
                (case ts_arg of Some t \<Rightarrow> snd (load_state clk n fs path)
                 | None \<Rightarrow> Suc (snd (load_state clk n fs path))))"
  using assms
  by (simp add: append_event_def save_state_def split: prod.splits option.splits)

lemma sum_buys_in_window:
  assumes "\<forall>e\<in>set es. event_type e = ''buy'' \<and> event_item_id e = i \<and> 0 \<le> qty e \<and> cutoff \<le> ts e"
  shows "get0 (sum_buys cutoff es used) i = get0 used i + sum_list (map qty es)"
  using assms
  by (induction es arbitrary: used) (simp_all add: get0_def)

lemma sum_buys_out_of_window:
  assumes "\<forall>e\<in>set es. ts e < cutoff"
  shows "sum_buys cutoff es used = used"
  using assms
  by (induction es arbitrary: used) simp_all

lemma compute_remaining_stored:
  assumes "path \<noteq> []" "fs path = Some st"
  shows "fst (compute_remaining_limits clk m fs path bl) =
           remaining_of bl (sum_buys (clk (Suc m) - FOUR_HOURS_SEC)
              (filter (\<lambda>e. clk m - 2 * FOUR_HOURS_SEC \<le> ts e) (events st)) Map.empty)"
  by (simp add: compute_remaining_limits_def load_state_stored[where fs = fs and path = path, OF assms] Let_def)

lemma remaining_in_window:
  assumes "path \<noteq> []" "fs path = Some st" "bl i = Some (Some C)"
    and "\<forall>k. t0 \<le> clk k \<and> clk k \<le> t0 + FOUR_HOURS_SEC"
    and "\<forall>e\<in>set (events st). event_type e = ''buy'' \<and> event_item_id e = i \<and> 0 \<le> qty e \<and> t0 \<le> ts e"
  shows "fst (compute_remaining_limits clk m fs path bl) i = Some (max 0 (C - sum_list (map qty (events st))))"
proof -
  have w: "clk m - 2 * FOUR_HOURS_SEC \<le> t0" "clk (Suc m) - FOUR_HOURS_SEC \<le> t0"
    using assms(4)[rule_format, of m] assms(4)[rule_format, of "Suc m"]
    by (simp_all add: FOUR_HOURS_SEC_def)
  have "\<forall>e\<in>set (events st). clk m - 2 * FOUR_HOURS_SEC \<le> ts e"
  proof
    fix e assume "e \<in> set (events st)"
    with assms(5) have "t0 \<le> ts e" by simp
    with w(1) show "clk m - 2 * FOUR_HOURS_SEC \<le> ts e" by linarith
  qed
  then have keep: "filter (\<lambda>e. clk m - 2 * FOUR_HOURS_SEC \<le> ts e) (events st) = events st"
    by simp
  have "\<forall>e\<in>set (events st). event_type e = ''buy'' \<and> event_item_id e = i \<and> 0 \<le> qty e
          \<and> clk (Suc m) - FOUR_HOURS_SEC \<le> ts e"
  proof
    fix e assume e: "e \<in> set (events st)"
    with assms(5) have "t0 \<le> ts e" by simp
    with w(2) have "clk (Suc m) - FOUR_HOURS_SEC \<le> ts e" by linarith
    with assms(5) e show "event_type e = ''buy'' \<and> event_item_id e = i \<and> 0 \<le> qty e
          \<and> clk (Suc m) - FOUR_HOURS_SEC \<le> ts e" by simp
  qed
  from sum_buys_in_window[OF this, of Map.empty]
  have "get0 (sum_buys (clk (Suc m) - FOUR_HOURS_SEC) (events st) Map.empty) i = sum_list (map qty (events st))"
    by (simp add: get0_def)
  then show ?thesis
    by (simp add: compute_remaining_stored[where fs = fs and path = path, OF assms(1,2)] keep remaining_of_def assms(3))
qed

lemma remaining_out_of_window:
  assumes "path \<noteq> []" "fs path = Some st" "bl i = Some (Some C)"
    and "\<forall>e\<in>set (events st). ts e < clk (Suc m) - FOUR_HOURS_SEC"
  shows "fst (compute_remaining_limits clk m fs path bl) i = Some (max 0 C)"
proof -
  have "\<forall>e\<in>set (filter (\<lambda>e. clk m - 2 * FOUR_HOURS_SEC \<le> ts e) (events st)). ts e < clk (Suc m) - FOUR_HOURS_SEC"
    using assms(4) by simp
  from sum_buys_out_of_window[OF this]
  show ?thesis
    by (simp add: compute_remaining_stored[where fs = fs and path = path, OF assms(1,2)] remaining_of_def assms(3) get0_def)
qed

text \<open>
  C7. Round trip over the local event log, from an empty log at a usable path: after
  recording a buy of quantity \<open>q \<ge> 0\<close> for item \<open>i\<close> with cap \<open>C\<close>, the remaining limit of
  \<open>i\<close> is \<open>max(0, C - q)\<close>; after recording a second buy of \<open>q\<close> it is \<open>max(0, C - 2q)\<close>
  (the clock samples of the scenario lying within one four-hour span). A buy whose
  timestamp is older than the four-hour window contributes nothing: the remaining limit
  is the cap.
\<close>

theorem C7_accountant_round_trip:
  assumes "path \<noteq> []" and "\<forall>st. fs path = Some st \<longrightarrow> events st = []" and "bl i = Some (Some C)"
  shows "(0 \<le> q \<and> (\<forall>k. t0 \<le> clk k \<and> clk k \<le> t0 + FOUR_HOURS_SEC) \<longrightarrow>
           (\<exists>fs1 n1. append_event clk n fs path i q ''buy'' None = Inr (fs1, n1)
              \<and> fst (compute_remaining_limits clk n1 fs1 path bl) i = Some (max 0 (C - q))
              \<and> (\<exists>fs2 n2. append_event clk (snd (compute_remaining_limits clk n1 fs1 path bl)) fs1 path
                               i q ''buy'' None = Inr (fs2, n2)
                    \<and> fst (compute_remaining_limits clk n2 fs2 path bl) i = Some (max 0 (C - 2 * q)))))
         \<and> ((\<forall>k. t < clk k - FOUR_HOURS_SEC) \<longrightarrow>
           (\<exists>fs3 n3. append_event clk n fs path i q ''buy'' (Some t) = Inr (fs3, n3)
              \<and> fst (compute_remaining_limits clk n3 fs3 path bl) i = Some (max 0 C)))"
proof (intro conjI impI)
  define st0 where "st0 = fst (load_state clk n fs path)"
  define k0 where "k0 = snd (load_state clk n fs path)"
  have ev0: "events st0 = []" unfolding st0_def by (rule load_state_empty_log[where fs = fs and path = path, OF assms(2)])
  {
    assume h: "0 \<le> q \<and> (\<forall>k. t0 \<le> clk k \<and> clk k \<le> t0 + FOUR_HOURS_SEC)"
    then have w: "\<forall>k. t0 \<le> clk k \<and> clk k \<le> t0 + FOUR_HOURS_SEC" and q: "0 \<le> q" by simp_all
    define e1 where "e1 = \<lparr> ts = clk k0, event_item_id = i, event_type = ''buy'', qty = q \<rparr>"
    define st1 where "st1 = st0 \<lparr> events := [e1] \<rparr>"
    define fs1 where "fs1 = fs(path \<mapsto> st1)"
    have ap1: "append_event clk n fs path i q ''buy'' None = Inr (fs1, Suc k0)"
      by (simp add: append_event_buy[OF assms(1)] fs1_def st1_def e1_def st0_def[symmetric] k0_def[symmetric] ev0)
    have p1: "fs1 path = Some st1" by (simp add: fs1_def)
    have g1: "\<forall>e\<in>set (events st1). event_type e = ''buy'' \<and> event_item_id e = i \<and> 0 \<le> qty e \<and> t0 \<le> ts e"
      using q w by (simp add: st1_def e1_def)
    have r1: "fst (compute_remaining_limits clk (Suc k0) fs1 path bl) i = Some (max 0 (C - q))"
      using remaining_in_window[where fs = fs1 and path = path and bl = bl and i = i and clk = clk and m = "Suc k0", OF assms(1) p1 assms(3) w g1]
      by (simp add: st1_def e1_def)
    define m where "m = snd (compute_remaining_limits clk (Suc k0) fs1 path bl)"
    have keep: "filter (\<lambda>e. clk m - 2 * FOUR_HOURS_SEC \<le> ts e) [e1] = [e1]"
      using w[rule_format, of m] w[rule_format, of k0] by (simp add: e1_def FOUR_HOURS_SEC_def)
    have ld1: "load_state clk m fs1 path = (\<lparr> events = [e1], version = version st1 \<rparr>, Suc m)"
      using load_state_stored[where fs = fs1 and path = path and clk = clk and n = m, OF assms(1) p1] keep
      by (simp add: st1_def)
    define e2 where "e2 = \<lparr> ts = clk (Suc m), event_item_id = i, event_type = ''buy'', qty = q \<rparr>"
    define st2 where "st2 = \<lparr> events = [e1, e2], version = version st1 \<rparr>"
    define fs2 where "fs2 = fs1(path \<mapsto> st2)"
    have ap2: "append_event clk m fs1 path i q ''buy'' None = Inr (fs2, Suc (Suc m))"
      by (simp add: append_event_buy[OF assms(1)] ld1 fs2_def st2_def e2_def)
    have p2: "fs2 path = Some st2" by (simp add: fs2_def)
    have g2: "\<forall>e\<in>set (events st2). event_type e = ''buy'' \<and> event_item_id e = i \<and> 0 \<le> qty e \<and> t0 \<le> ts e"
      using q w by (simp add: st2_def e1_def e2_def)
    have r2: "fst (compute_remaining_limits clk (Suc (Suc m)) fs2 path bl) i = Some (max 0 (C - 2 * q))"
      using remaining_in_window[where fs = fs2 and path = path and bl = bl and i = i and clk = clk and m = "Suc (Suc m)", OF assms(1) p2 assms(3) w g2]
      by (simp add: st2_def e1_def e2_def)
    show "\<exists>fs1 n1. append_event clk n fs path i q ''buy'' None = Inr (fs1, n1)
              \<and> fst (compute_remaining_limits clk n1 fs1 path bl) i = Some (max 0 (C - q))
              \<and> (\<exists>fs2 n2. append_event clk (snd (compute_remaining_limits clk n1 fs1 path bl)) fs1 path
                               i q ''buy'' None = Inr (fs2, n2)
                    \<and> fst (compute_remaining_limits clk n2 fs2 path bl) i = Some (max 0 (C - 2 * q)))"
      using ap1 r1 ap2[unfolded m_def] r2[unfolded m_def] by blast
  }
  {
    assume h: "\<forall>k. t < clk k - FOUR_HOURS_SEC"
    define e3 where "e3 = \<lparr> ts = t, event_item_id = i, event_type = ''buy'', qty = q \<rparr>"
    define st3 where "st3 = st0 \<lparr> events := [e3] \<rparr>"
    define fs3 where "fs3 = fs(path \<mapsto> st3)"
    have ap3: "append_event clk n fs path i q ''buy'' (Some t) = Inr (fs3, k0)"
      by (simp add: append_event_buy[OF assms(1)] fs3_def st3_def e3_def st0_def[symmetric] k0_def[symmetric] ev0)
    have p3: "fs3 path = Some st3" by (simp add: fs3_def)
    have g3: "\<forall>e\<in>set (events st3). ts e < clk (Suc k0) - FOUR_HOURS_SEC"
      using h by (simp add: st3_def e3_def)
    have r3: "fst (compute_remaining_limits clk k0 fs3 path bl) i = Some (max 0 C)"
      by (rule remaining_out_of_window[where fs = fs3 and path = path and bl = bl and i = i and clk = clk and m = k0, OF assms(1) p3 assms(3) g3])
    show "\<exists>fs3 n3. append_event clk n fs path i q ''buy'' (Some t) = Inr (fs3, n3)
              \<and> fst (compute_remaining_limits clk n3 fs3 path bl) i = Some (max 0 C)"
      using ap3 r3 by blast
  }
qed

theorem C7_accountant_round_trip_witness:
  "(\<exists>fs1 n1. append_event (\<lambda>_. 1700000000) 0 Map.empty ''limits.json'' 1 30 ''buy'' None = Inr (fs1, n1)
      \<and> fst (compute_remaining_limits (\<lambda>_. 1700000000) n1 fs1 ''limits.json'' [1 \<mapsto> Some 100]) 1 = Some 70
      \<and> (\<exists>fs2 n2. append_event (\<lambda>_. 1700000000)
                       (snd (compute_remaining_limits (\<lambda>_. 1700000000) n1 fs1 ''limits.json'' [1 \<mapsto> Some 100]))
                       fs1 ''limits.json'' 1 30 ''buy'' None = Inr (fs2, n2)
            \<and> fst (compute_remaining_limits (\<lambda>_. 1700000000) n2 fs2 ''limits.json'' [1 \<mapsto> Some 100]) 1 = Some 40))
   \<and> (\<exists>fs3 n3. append_event (\<lambda>_. 1700000000) 0 Map.empty ''limits.json'' 1 30 ''buy'' (Some 1699982000)
                   = Inr (fs3, n3)
      \<and> fst (compute_remaining_limits (\<lambda>_. 1700000000) n3 fs3 ''limits.json'' [1 \<mapsto> Some 100]) 1 = Some 100)"
  using C7_accountant_round_trip[where path = "''limits.json''" and fs = Map.empty and bl = "[1 \<mapsto> Some 100]"
      and i = 1 and C = 100 and q = 30 and ?t0.0 = 1700000000 and clk = "\<lambda>_. 1700000000" and n = 0
      and t = 1699982000]
  by (simp add: FOUR_HOURS_SEC_def)


section \<open>Timestamps in seconds and in milliseconds\<close>









text \<open>
  A timestamp that is nan makes \<^verbatim>\<open>int\<close> raise outside any \<^verbatim>\<open>try\<close>, which ends the whole
  call.
\<close>

lemma export_nan_stamp_raises:
  "compute_remaining_from_flipper2 clk n
     (Some ([JObj [(''ts'', JFloat NaN), (''itemId'', JInt 1), (''quantity'', JInt 30)]], flips)) bl
   = (Inl ValueError, Suc n)"
  by (simp add: compute_remaining_from_flipper2_def add_entry_def event_item_def event_ts_def json_get_def
        py_or_def Let_def)

text \<open>
  The millisecond form of a second up to \<open>10 ^ 9\<close> (September 2001) is not above \<open>10 ^ 12\<close>
  and is taken as seconds: five hours after the second 999999999 the buy is outside the
  window in second form and inside it in millisecond form.
\<close>

lemma export_stamp_before_2001:
  "(case fst (compute_remaining_from_flipper2 (\<lambda>_. 1000017999) 0
       (Some ([JObj [(''ts'', JInt 999999999), (''itemId'', JInt 1), (''quantity'', JInt 30)]], []))
       [1 \<mapsto> Some 100]) of Inl err \<Rightarrow> None | Inr remaining \<Rightarrow> remaining 1) = Some 100
   \<and> (case fst (compute_remaining_from_flipper2 (\<lambda>_. 1000017999) 0
       (Some ([JObj [(''ts'', JInt 999999999000), (''itemId'', JInt 1), (''quantity'', JInt 30)]], []))
       [1 \<mapsto> Some 100]) of Inl err \<Rightarrow> None | Inr remaining \<Rightarrow> remaining 1) = Some 70"
  by (simp add: compute_remaining_from_flipper2_def add_entry_def event_item_def event_ts_def event_qty_def
        json_get_def py_or_def remaining_of_def get0_def FOUR_HOURS_SEC_def Let_def)








end
